theory Spec2Isabelle
  imports Complex_Main "HOL-Library.Word"
begin

section \<open>Video heatmap: the processor, the detector, the detection pass\<close>

text \<open>
  A shallow embedding of \<^verbatim>\<open>src/processor.py\<close> (class \<^verbatim>\<open>VideoHeatmapProcessor\<close>) and of
  \<^verbatim>\<open>CursorDetectionThread.run\<close> in \<^verbatim>\<open>src/ui.py\<close>.

  Conventions of the model.
  \<^item> Python \<^verbatim>\<open>int\<close> is \<open>int\<close>; \<^verbatim>\<open>//\<close> and \<^verbatim>\<open>%\<close> with a positive divisor are \<open>div\<close> and
    \<open>mod\<close> (both floor).
  \<^item> Python and numpy floats are the reals: rounding, infinities and NaN are not
    modelled. A comparison or a truncation of the model can differ from the code's
    only where the exact value is within rounding error of the threshold or of an
    integer; the concrete evaluations below stay away from such boundaries or use
    values that floating point represents exactly (halves and quarters). The
    progress value of the detection pass is the one place where the code truncates
    a product of floats that is often an integer in exact arithmetic: there the
    rounding of each float operation is a parameter \<open>rnd\<close> of the model.
  \<^item> A numpy \<^verbatim>\<open>uint8\<close> is an \<open>8 word\<close>.
  \<^item> A two-dimensional numpy array is the list of its rows.
  \<^item> Calls into OpenCV and matplotlib whose result the repository only passes on
    (\<^verbatim>\<open>cv2.circle\<close>, \<^verbatim>\<open>cv2.GaussianBlur\<close>, the colormap, the chain from \<^verbatim>\<open>cvtColor\<close> to
    \<^verbatim>\<open>findContours\<close>) are parameters of the model.
  \<^item> An exception is a value of type \<open>error\<close>, returned as \<open>Inl\<close>.
\<close>

datatype error = ZeroDivisionError | ValueError | AttributeError | CvError

type_synonym sample = "real \<times> int \<times> int"

text \<open>
  The fields of \<^verbatim>\<open>VideoHeatmapProcessor\<close> that the modelled methods read or write.
  The capture handle \<^verbatim>\<open>cap\<close> is the list of frames handed to the detection pass.
\<close>

record processor =
  blur_size :: int
  width :: nat
  height :: nat
  colormap :: string
  cursor_positions :: "sample list"
  total_frames :: int
  fps :: real

subsection \<open>\<^verbatim>\<open>set_blur_size\<close>\<close>

definition set_blur_size :: "processor \<Rightarrow> int \<Rightarrow> processor" where
  "set_blur_size self v = self\<lparr>blur_size := (if v mod 2 = 1 then v else v + 1)\<rparr>"

subsection \<open>\<^verbatim>\<open>generate_heatmap\<close>\<close>

type_synonym field = "real list list"

text \<open>
  \<^verbatim>\<open>cv2.circle(heatmap, (x, y), radius, (1.0), -1)\<close> draws into the array it is given; the
  model returns the array after the call, or the error OpenCV raises.
  \<^verbatim>\<open>cv2.GaussianBlur(heatmap, (k, k), 0)\<close> likewise, with the kernel size \<open>k\<close>.
\<close>

type_synonym circle_fn = "field \<Rightarrow> int \<times> int \<Rightarrow> int \<Rightarrow> error + field"
type_synonym blur_fn = "field \<Rightarrow> int \<Rightarrow> error + field"

text \<open>\<^verbatim>\<open>np.zeros((height, width), dtype=np.float32)\<close>\<close>

definition zeros :: "nat \<Rightarrow> nat \<Rightarrow> field" where
  "zeros h w = replicate h (replicate w 0)"

text \<open>
  The pre-filter loop of lines 124 to 131, with \<^verbatim>\<open>positions_in_range\<close> as the
  accumulator. The coordinates of a sample are Python ints (the detection pass is
  the only writer of the trail), so \<^verbatim>\<open>int(x)\<close> and \<^verbatim>\<open>int(y)\<close> change nothing.
\<close>

fun positions_loop ::
  "real \<Rightarrow> real \<Rightarrow> nat \<Rightarrow> nat \<Rightarrow> sample list \<Rightarrow> (int \<times> int) list \<Rightarrow> (int \<times> int) list" where
  "positions_loop start_time end_time w h [] positions_in_range = positions_in_range"
| "positions_loop start_time end_time w h ((t, x, y) # rest) positions_in_range =
     (if start_time \<le> t \<and> t \<le> end_time then
        (if 0 \<le> x \<and> x < int w \<and> 0 \<le> y \<and> y < int h
         then positions_loop start_time end_time w h rest (positions_in_range @ [(x, y)])
         else positions_loop start_time end_time w h rest positions_in_range)
      else positions_loop start_time end_time w h rest positions_in_range)"

text \<open>The drawing loop of lines 134 to 136: one disk of radius \<^verbatim>\<open>resolution // 4\<close> a position.\<close>

fun draw_loop :: "circle_fn \<Rightarrow> int \<Rightarrow> (int \<times> int) list \<Rightarrow> field \<Rightarrow> error + field" where
  "draw_loop circle resolution [] heatmap = Inr heatmap"
| "draw_loop circle resolution ((x, y) # rest) heatmap =
     (case circle heatmap (x, y) (resolution div 4) of
        Inl e \<Rightarrow> Inl e
      | Inr heatmap' \<Rightarrow> draw_loop circle resolution rest heatmap')"

text \<open>Lines 133 to 142: the disks, then the blur when there was a position.\<close>

definition render ::
  "circle_fn \<Rightarrow> blur_fn \<Rightarrow> processor \<Rightarrow> int \<Rightarrow> field \<Rightarrow> (int \<times> int) list \<Rightarrow> error + field" where
  "render circle GaussianBlur self resolution heatmap positions_in_range =
     (case draw_loop circle resolution positions_in_range heatmap of
        Inl e \<Rightarrow> Inl e
      | Inr heatmap' \<Rightarrow>
          if positions_in_range \<noteq> [] then GaussianBlur heatmap' (blur_size self)
          else Inr heatmap')"

definition generate_heatmap ::
  "circle_fn \<Rightarrow> blur_fn \<Rightarrow> processor \<Rightarrow> real \<Rightarrow> real \<Rightarrow> int \<Rightarrow> error + field" where
  "generate_heatmap circle GaussianBlur self start_time end_time resolution =
     (let heatmap = zeros (height self) (width self) in
      if cursor_positions self = [] then Inr heatmap
      else render circle GaussianBlur self resolution heatmap
             (positions_loop start_time end_time (width self) (height self)
                (cursor_positions self) []))"

text \<open>
  The words of the specification, for comparison with the loop: the samples of a
  trail inside the frame, whatever their timestamps (the unbounded window), and the
  samples inside the frame and inside a window closed at both ends.
\<close>

definition in_bounds :: "nat \<Rightarrow> nat \<Rightarrow> sample \<Rightarrow> bool" where
  "in_bounds w h smp = (case smp of (t, x, y) \<Rightarrow> 0 \<le> x \<and> x < int w \<and> 0 \<le> y \<and> y < int h)"

definition in_window :: "real \<Rightarrow> real \<Rightarrow> sample \<Rightarrow> bool" where
  "in_window start_time end_time smp = (case smp of (t, x, y) \<Rightarrow> start_time \<le> t \<and> t \<le> end_time)"

definition position_of :: "sample \<Rightarrow> int \<times> int" where
  "position_of smp = (case smp of (t, x, y) \<Rightarrow> (x, y))"

definition unbounded_window_positions :: "nat \<Rightarrow> nat \<Rightarrow> sample list \<Rightarrow> (int \<times> int) list" where
  "unbounded_window_positions w h trail = map position_of (filter (in_bounds w h) trail)"

definition window_positions ::
  "real \<Rightarrow> real \<Rightarrow> nat \<Rightarrow> nat \<Rightarrow> sample list \<Rightarrow> (int \<times> int) list" where
  "window_positions start_time end_time w h trail =
     map position_of
       (filter (\<lambda>smp. in_window start_time end_time smp \<and> in_bounds w h smp) trail)"

text \<open>
  The field of a list of positions, after the algorithm of the specification: from
  the field of zeros, a disk of the given radius for each position in turn (the
  first disk that fails ends the build), then the smoothing with the given kernel
  size when there was a position, and no smoothing when there was none.
\<close>

definition splat_all :: "circle_fn \<Rightarrow> int \<Rightarrow> (int \<times> int) list \<Rightarrow> field \<Rightarrow> error + field" where
  "splat_all circle radius ps hm =
     fold (\<lambda>p acc. case acc of Inl e \<Rightarrow> Inl e | Inr hm' \<Rightarrow> circle hm' p radius) ps (Inr hm)"

definition field_of_positions ::
  "circle_fn \<Rightarrow> blur_fn \<Rightarrow> int \<Rightarrow> int \<Rightarrow> nat \<Rightarrow> nat \<Rightarrow> (int \<times> int) list \<Rightarrow> error + field" where
  "field_of_positions circle blur ksize radius h w ps =
     (case splat_all circle radius ps (zeros h w) of
        Inl e \<Rightarrow> Inl e
      | Inr hm \<Rightarrow> if ps = [] then Inr hm else blur hm ksize)"

subsection \<open>\<^verbatim>\<open>detect_cursor_from_difference\<close>\<close>

text \<open>
  A contour is what OpenCV measures on it: \<^verbatim>\<open>cv2.contourArea(c)\<close>,
  \<^verbatim>\<open>cv2.arcLength(c, True)\<close>, the width and height of \<^verbatim>\<open>cv2.boundingRect(c)\<close>, and the
  entries \<^verbatim>\<open>m00\<close>, \<^verbatim>\<open>m10\<close>, \<^verbatim>\<open>m01\<close> of \<^verbatim>\<open>cv2.moments(c)\<close>.
\<close>

record contour =
  area :: real
  perimeter :: real
  box_w :: int
  box_h :: int
  m00 :: real
  m10 :: real
  m01 :: real

text \<open>\<^verbatim>\<open>np.pi\<close>, the double nearest to \<open>\<pi>\<close>: \<open>884279719003555 / 2 ^ 48\<close>.\<close>

definition np_pi :: real where
  "np_pi = 884279719003555 / 281474976710656"

text \<open>Python's \<^verbatim>\<open>int(r)\<close> of a float: truncation towards zero.\<close>

definition py_int :: "real \<Rightarrow> int" where
  "py_int r = (if 0 \<le> r then \<lfloor>r\<rfloor> else \<lceil>r\<rceil>)"

text \<open>
  The body of the filter loop, lines 80 to 93. An \<^verbatim>\<open>if\<close> of the source has no
  \<^verbatim>\<open>else\<close>: the list is left as it was.
\<close>

definition filter_step ::
  "int \<Rightarrow> int \<Rightarrow> contour \<Rightarrow> (contour \<times> real \<times> real) list \<Rightarrow> (contour \<times> real \<times> real) list" where
  "filter_step min_area max_area c valid_contours =
     (let a = area c in
      if real_of_int min_area \<le> a \<and> a \<le> real_of_int max_area then
        (let p = perimeter c in
         if p > 0 then
           (let circ = 4 * np_pi * a / (p * p) in
            if circ > 0.35 then
              (let w = box_w c; h = box_h c;
                   aspect_ratio = (if h > 0 then real_of_int w / real_of_int h else 0) in
               if 0.5 \<le> aspect_ratio \<and> aspect_ratio \<le> 2.0
               then valid_contours @ [(c, a, circ)]
               else valid_contours)
            else valid_contours)
         else valid_contours)
      else valid_contours)"

fun filter_loop ::
  "int \<Rightarrow> int \<Rightarrow> contour list \<Rightarrow> (contour \<times> real \<times> real) list \<Rightarrow> (contour \<times> real \<times> real) list" where
  "filter_loop min_area max_area [] valid_contours = valid_contours"
| "filter_loop min_area max_area (c # rest) valid_contours =
     filter_loop min_area max_area rest (filter_step min_area max_area c valid_contours)"

text \<open>
  \<^verbatim>\<open>list.sort(key=..., reverse=True)\<close>: descending and stable, elements of equal key
  keep their order. \<open>sort_key\<close> is ascending and stable.
\<close>

definition sort_reverse :: "('a \<Rightarrow> real) \<Rightarrow> 'a list \<Rightarrow> 'a list" where
  "sort_reverse key xs = rev (sort_key key (rev xs))"

text \<open>Lines 77 to 109: from the contours to the returned pair.\<close>

definition select_centroid :: "int \<Rightarrow> int \<Rightarrow> contour list \<Rightarrow> int \<times> int" where
  "select_centroid min_area max_area contours =
     (let valid_contours = filter_loop min_area max_area contours [] in
      if valid_contours \<noteq> [] then
        (let sorted_contours = sort_reverse (\<lambda>x. fst (snd x) * snd (snd x)) valid_contours;
             best = fst (hd sorted_contours) in
         if m00 best \<noteq> 0
         then (py_int (m10 best / m00 best), py_int (m01 best / m00 best))
         else (- 1, - 1))
      else (- 1, - 1))"

text \<open>
  The whole method. A frame is \<open>None\<close> for Python's \<^verbatim>\<open>None\<close>. \<open>find_contours\<close> stands
  for lines 55 to 75 (\<^verbatim>\<open>cvtColor\<close>, \<^verbatim>\<open>GaussianBlur\<close>, \<^verbatim>\<open>absdiff\<close>, \<^verbatim>\<open>threshold\<close>,
  \<^verbatim>\<open>morphologyEx\<close>, \<^verbatim>\<open>findContours\<close>) on two frames of one video.
\<close>

definition detect_cursor_from_difference ::
  "('f \<Rightarrow> 'f \<Rightarrow> int \<Rightarrow> contour list) \<Rightarrow> 'f option \<Rightarrow> 'f option \<Rightarrow> int \<Rightarrow> int \<Rightarrow> int
     \<Rightarrow> int \<times> int" where
  "detect_cursor_from_difference find_contours frame prev_frame threshold min_area max_area =
     (case prev_frame of
        None \<Rightarrow> (- 1, - 1)
      | Some pf \<Rightarrow>
          (case frame of
             None \<Rightarrow> (- 1, - 1)
           | Some f \<Rightarrow> select_centroid min_area max_area (find_contours f pf threshold)))"

text \<open>
  The words of the specification, for comparison with the loop. The circularity
  of a contour is defined when its perimeter is positive, the aspect ratio of its
  bounding box when the height of the box is positive.
\<close>

definition circularity :: "contour \<Rightarrow> real" where
  "circularity c = 4 * np_pi * area c / (perimeter c)\<^sup>2"

definition aspect_ratio :: "contour \<Rightarrow> real" where
  "aspect_ratio c = real_of_int (box_w c) / real_of_int (box_h c)"

definition survives :: "int \<Rightarrow> int \<Rightarrow> contour \<Rightarrow> bool" where
  "survives min_area max_area c \<longleftrightarrow>
     real_of_int min_area \<le> area c \<and> area c \<le> real_of_int max_area
     \<and> 0 < perimeter c \<and> 0.35 < circularity c
     \<and> 0 < box_h c \<and> 0.5 \<le> aspect_ratio c \<and> aspect_ratio c \<le> 2"

definition score :: "contour \<Rightarrow> real" where
  "score c = area c * circularity c"

definition centroid :: "contour \<Rightarrow> int \<times> int" where
  "centroid c = (py_int (m10 c / m00 c), py_int (m01 c / m00 c))"

text \<open>The survivors of a contour list, in order, and the first one of greatest score.\<close>

definition survivors :: "int \<Rightarrow> int \<Rightarrow> contour list \<Rightarrow> contour list" where
  "survivors min_area max_area contours = filter (survives min_area max_area) contours"

definition best_survivor :: "int \<Rightarrow> int \<Rightarrow> contour list \<Rightarrow> contour" where
  "best_survivor min_area max_area contours =
     hd (filter (\<lambda>c. list_all (\<lambda>d. score d \<le> score c) (survivors min_area max_area contours))
           (survivors min_area max_area contours))"

subsection \<open>\<^verbatim>\<open>CursorDetectionThread.run\<close>\<close>

text \<open>
  The local variables of \<^verbatim>\<open>run\<close> that the loop changes, together with the two effects
  of the loop outside the thread: \<open>positions\<close> is \<^verbatim>\<open>self.processor.cursor_positions\<close>,
  which the loop appends to in place, and \<open>emitted\<close> lists the values given to
  \<^verbatim>\<open>progress_updated.emit\<close>, oldest first.
\<close>

record 'f pass_state =
  frame_count :: nat
  prev_frame :: "'f option"
  positions :: "sample list"
  emitted :: "int list"

text \<open>
  One iteration of the \<^verbatim>\<open>while\<close> loop for a frame that \<^verbatim>\<open>cap.read()\<close> delivered, lines
  337 to 362. Python raises \<^verbatim>\<open>ZeroDivisionError\<close> on a division by a zero float or a
  zero int. The arguments \<open>threshold\<close>, \<open>min_area\<close>, \<open>max_area\<close> are the fields of the
  thread, \<open>self\<close> is its processor.

  The quotient and the product of the progress line 361 are float operations whose
  result is truncated to an integer, so their rounding shows in the value: \<open>rnd\<close> is
  the rounding of a real number to a double, applied to the exact result of each of
  the two operations (both ints are converted to doubles exactly).
\<close>

definition run_step ::
  "(real \<Rightarrow> real) \<Rightarrow> ('f \<Rightarrow> 'f \<Rightarrow> int \<Rightarrow> contour list) \<Rightarrow> int \<Rightarrow> int \<Rightarrow> int
     \<Rightarrow> processor \<Rightarrow> 'f \<Rightarrow> 'f pass_state \<Rightarrow> error + 'f pass_state" where
  "run_step rnd find_contours threshold min_area max_area self frame st =
     (if fps self = 0 then Inl ZeroDivisionError
      else
        let timestamp = real (frame_count st) / fps self;
            xy = (case prev_frame st of
                    None \<Rightarrow> (- 1, - 1)
                  | Some pf \<Rightarrow>
                      detect_cursor_from_difference find_contours (Some frame) (Some pf)
                        threshold min_area max_area);
            positions' = (if fst xy \<ge> 0 \<and> snd xy \<ge> 0
                          then positions st @ [(timestamp, fst xy, snd xy)]
                          else positions st);
            frame_count' = frame_count st + 1
        in if total_frames self = 0 then Inl ZeroDivisionError
           else
             let progress =
                   py_int (rnd (rnd (real frame_count' / real_of_int (total_frames self)) * 100))
             in Inr \<lparr>frame_count = frame_count', prev_frame = Some frame,
                     positions = positions', emitted = emitted st @ [progress]\<rparr>)"

text \<open>
  The \<^verbatim>\<open>while True\<close> loop over the frames that \<^verbatim>\<open>cap.read()\<close> delivers after the seek to
  frame 0; at the end of the list \<^verbatim>\<open>ret\<close> is false and the loop breaks. The loop has
  no other exit.
\<close>

fun run_loop ::
  "(real \<Rightarrow> real) \<Rightarrow> ('f \<Rightarrow> 'f \<Rightarrow> int \<Rightarrow> contour list) \<Rightarrow> int \<Rightarrow> int \<Rightarrow> int
     \<Rightarrow> processor \<Rightarrow> 'f list \<Rightarrow> 'f pass_state \<Rightarrow> error + 'f pass_state" where
  "run_loop rnd find_contours threshold min_area max_area self [] st = Inr st"
| "run_loop rnd find_contours threshold min_area max_area self (frame # rest) st =
     (case run_step rnd find_contours threshold min_area max_area self frame st of
        Inl e \<Rightarrow> Inl e
      | Inr st' \<Rightarrow> run_loop rnd find_contours threshold min_area max_area self rest st')"

text \<open>The state at the start of the loop, lines 328 to 330.\<close>

definition initial_state :: "'f pass_state" where
  "initial_state = \<lparr>frame_count = 0, prev_frame = None, positions = [], emitted = []\<rparr>"

text \<open>
  The whole of \<^verbatim>\<open>run\<close>: the processor afterwards, the values emitted on
  \<^verbatim>\<open>progress_updated\<close> and the values emitted on \<^verbatim>\<open>finished_processing\<close>.
  \<open>cap\<close> is \<^verbatim>\<open>self.processor.cap\<close>: \<open>None\<close> on a processor that has opened no video,
  where \<^verbatim>\<open>cap.set\<close> of line 326 raises \<^verbatim>\<open>AttributeError\<close> before anything is changed;
  otherwise the frames that \<^verbatim>\<open>cap.read()\<close> delivers from frame 0 on.
\<close>

definition run ::
  "(real \<Rightarrow> real) \<Rightarrow> ('f \<Rightarrow> 'f \<Rightarrow> int \<Rightarrow> contour list) \<Rightarrow> int \<Rightarrow> int \<Rightarrow> int
     \<Rightarrow> processor \<Rightarrow> 'f list option \<Rightarrow> error + (processor \<times> int list \<times> bool list)" where
  "run rnd find_contours threshold min_area max_area self cap =
     (case cap of
        None \<Rightarrow> Inl AttributeError
      | Some frames \<Rightarrow>
          (case run_loop rnd find_contours threshold min_area max_area self frames
                  initial_state of
             Inl e \<Rightarrow> Inl e
           | Inr st \<Rightarrow> Inr (self\<lparr>cursor_positions := positions st\<rparr>, emitted st, [True])))"

text \<open>
  A pass that is stopped in the middle (the window's \<^verbatim>\<open>closeEvent\<close> calls
  \<^verbatim>\<open>QThread.terminate\<close> on a running pass): the same loop over the same frame source,
  cut off once \<open>k\<close> iterations are done. The state it returns is what the thread
  leaves behind; \<open>positions\<close> is the trail then held by the processor.
\<close>

fun run_loop_upto ::
  "(real \<Rightarrow> real) \<Rightarrow> ('f \<Rightarrow> 'f \<Rightarrow> int \<Rightarrow> contour list) \<Rightarrow> int \<Rightarrow> int \<Rightarrow> int
     \<Rightarrow> processor \<Rightarrow> nat \<Rightarrow> 'f list \<Rightarrow> 'f pass_state \<Rightarrow> error + 'f pass_state" where
  "run_loop_upto rnd find_contours threshold min_area max_area self 0 frames st = Inr st"
| "run_loop_upto rnd find_contours threshold min_area max_area self (Suc k) [] st = Inr st"
| "run_loop_upto rnd find_contours threshold min_area max_area self (Suc k) (frame # rest) st =
     (case run_step rnd find_contours threshold min_area max_area self frame st of
        Inl e \<Rightarrow> Inl e
      | Inr st' \<Rightarrow>
          run_loop_upto rnd find_contours threshold min_area max_area self k rest st')"

definition run_stopped_after ::
  "(real \<Rightarrow> real) \<Rightarrow> ('f \<Rightarrow> 'f \<Rightarrow> int \<Rightarrow> contour list) \<Rightarrow> int \<Rightarrow> int \<Rightarrow> int
     \<Rightarrow> processor \<Rightarrow> 'f list \<Rightarrow> nat \<Rightarrow> error + 'f pass_state" where
  "run_stopped_after rnd find_contours threshold min_area max_area self frames k =
     run_loop_upto rnd find_contours threshold min_area max_area self k frames initial_state"

text \<open>
  The words of the specification, for comparison with the loop: the detection on
  frame \<open>i\<close> against frame \<open>i - 1\<close>, and the samples of a pass, one for each frame
  index \<open>i \<ge> 1\<close> with a detection, with timestamp \<open>i / fps\<close>.
\<close>

definition detection_at ::
  "('f \<Rightarrow> 'f \<Rightarrow> int \<Rightarrow> contour list) \<Rightarrow> int \<Rightarrow> int \<Rightarrow> int \<Rightarrow> 'f list \<Rightarrow> nat \<Rightarrow> int \<times> int" where
  "detection_at find_contours threshold min_area max_area frames i =
     detect_cursor_from_difference find_contours (Some (frames ! i)) (Some (frames ! (i - 1)))
       threshold min_area max_area"

definition detected :: "int \<times> int \<Rightarrow> bool" where
  "detected xy \<longleftrightarrow> 0 \<le> fst xy \<and> 0 \<le> snd xy"

definition pass_samples ::
  "('f \<Rightarrow> 'f \<Rightarrow> int \<Rightarrow> contour list) \<Rightarrow> int \<Rightarrow> int \<Rightarrow> int \<Rightarrow> real \<Rightarrow> 'f list \<Rightarrow> sample list" where
  "pass_samples find_contours threshold min_area max_area fps_v frames =
     map (\<lambda>i. (real i / fps_v,
                detection_at find_contours threshold min_area max_area frames i))
       (filter (\<lambda>i. detected (detection_at find_contours threshold min_area max_area frames i))
          [1..<length frames])"

text \<open>The progress value of line 361 for \<^verbatim>\<open>frame_count = i\<close>.\<close>

definition percent :: "(real \<Rightarrow> real) \<Rightarrow> int \<Rightarrow> nat \<Rightarrow> int" where
  "percent rnd n_total i = py_int (rnd (rnd (real i / real_of_int n_total) * 100))"

subsection \<open>\<^verbatim>\<open>apply_heatmap_to_frame\<close>\<close>

text \<open>
  A frame is an array of shape \<open>(h, w, 3)\<close> and type \<^verbatim>\<open>uint8\<close>, as OpenCV decodes it:
  a pixel holds the channels 0, 1, 2 (blue, green, red).
\<close>

type_synonym pixel = "8 word \<times> 8 word \<times> 8 word"
type_synonym frame = "pixel list list"

text \<open>
  A colormap of matplotlib, applied to one normalized value: the red, green and blue
  components of the colour (the alpha component is dropped by \<^verbatim>\<open>[:, :, :3]\<close>).
  \<^verbatim>\<open>getattr(cm, name)\<close> is a lookup that raises \<^verbatim>\<open>AttributeError\<close> for an unknown name.
\<close>

type_synonym cmap_fn = "real \<Rightarrow> real \<times> real \<times> real"

text \<open>
  The cast of a float to \<^verbatim>\<open>uint8\<close> (\<^verbatim>\<open>astype(np.uint8)\<close>, and the assignment of a float
  array into a \<^verbatim>\<open>uint8\<close> array): truncation towards zero, then the low 8 bits.
\<close>

definition astype_uint8 :: "real \<Rightarrow> 8 word" where
  "astype_uint8 r = word_of_int (py_int r)"

text \<open>\<^verbatim>\<open>np.max\<close> of an array: \<^verbatim>\<open>ValueError\<close> when the array has no element.\<close>

definition np_max :: "field \<Rightarrow> error + real" where
  "np_max a = (case concat a of [] \<Rightarrow> Inl ValueError | v # vs \<Rightarrow> Inr (fold max vs v))"

text \<open>
  The number of columns of an array given by its rows, and arrays whose rows all
  have that length (every numpy array is one).
\<close>

definition n_cols :: "'a list list \<Rightarrow> nat" where
  "n_cols a = (case a of [] \<Rightarrow> 0 | row # _ \<Rightarrow> length row)"

definition rectangular :: "'a list list \<Rightarrow> bool" where
  "rectangular a = list_all (\<lambda>row. length row = n_cols a) a"

text \<open>
  numpy broadcasting of an array of the field's shape against a channel of the
  frame, with the result assigned into the channel: each axis of the field has the
  length of the frame's axis or length 1, and an axis of length 1 is read at index 0.
\<close>

definition broadcastable :: "'a list list \<Rightarrow> 'b list list \<Rightarrow> bool" where
  "broadcastable fr a =
     ((length a = length fr \<or> length a = 1) \<and> (n_cols a = n_cols fr \<or> n_cols a = 1))"

definition broadcast_get :: "'a list list \<Rightarrow> nat \<Rightarrow> nat \<Rightarrow> 'a" where
  "broadcast_get a y x =
     (let row = a ! (if length a = 1 then 0 else y)
      in row ! (if length row = 1 then 0 else x))"

text \<open>
  Line 162 for one channel of one pixel:
  \<^verbatim>\<open>frame[:, :, c] * (1 - alpha) + colored_heatmap_bgr[:, :, c] * alpha\<close>, cast to \<^verbatim>\<open>uint8\<close>
  when it is assigned into \<^verbatim>\<open>result\<close>.
\<close>

definition blend :: "8 word \<Rightarrow> 8 word \<Rightarrow> real \<Rightarrow> 8 word" where
  "blend f c a = astype_uint8 (real (unat f) * (1 - a) + real (unat c) * a)"

definition blend_pixel :: "pixel \<Rightarrow> pixel \<Rightarrow> real \<Rightarrow> pixel" where
  "blend_pixel p q a =
     (case p of (f0, f1, f2) \<Rightarrow> case q of (c0, c1, c2) \<Rightarrow>
        (blend f0 c0 a, blend f1 c1 a, blend f2 c2 a))"

text \<open>The loop over the three channels, lines 160 to 162, pixel by pixel.\<close>

definition blend_frame :: "frame \<Rightarrow> pixel list list \<Rightarrow> field \<Rightarrow> frame" where
  "blend_frame fr colored_heatmap_bgr alpha =
     map (\<lambda>(y, row).
            map (\<lambda>(x, p). blend_pixel p (broadcast_get colored_heatmap_bgr y x)
                             (broadcast_get alpha y x))
              (enumerate 0 row))
         (enumerate 0 fr)"

text \<open>
  The method. \<open>cm\<close> is the module \<^verbatim>\<open>matplotlib.cm\<close>: the colormaps by name.
  \<^verbatim>\<open>Normalize(vmin=0, vmax=vmax)\<close> maps \<open>v\<close> to \<open>(v - vmin) / (vmax - vmin)\<close>.
  \<^verbatim>\<open>cv2.cvtColor(..., cv2.COLOR_RGB2BGR)\<close> exchanges the channels 0 and 2.
\<close>

definition apply_heatmap_to_frame ::
  "(string \<rightharpoonup> cmap_fn) \<Rightarrow> processor \<Rightarrow> frame \<Rightarrow> field \<Rightarrow> real \<Rightarrow> error + frame" where
  "apply_heatmap_to_frame cm self fr heatmap alpha_max =
     (case np_max heatmap of
        Inl e \<Rightarrow> Inl e
      | Inr m \<Rightarrow>
          let vmax = (if m > 0 then m else 1);
              normalized_heatmap = map (map (\<lambda>v. (v - 0) / (vmax - 0))) heatmap
          in case cm (colormap self) of
               None \<Rightarrow> Inl AttributeError
             | Some cmap \<Rightarrow>
                 let colored_heatmap =
                       map (map (\<lambda>v. case cmap v of (r, g, b) \<Rightarrow>
                              (astype_uint8 (r * 255), astype_uint8 (g * 255),
                               astype_uint8 (b * 255)))) normalized_heatmap;
                     colored_heatmap_bgr =
                       map (map (\<lambda>rgb. case rgb of (r, g, b) \<Rightarrow> (b, g, r))) colored_heatmap;
                     alpha = map (map (\<lambda>v. v * alpha_max)) normalized_heatmap
                 in if broadcastable fr heatmap
                    then Inr (blend_frame fr colored_heatmap_bgr alpha)
                    else Inl ValueError)"

section \<open>Properties\<close>

subsection \<open>The blur size is odd\<close>

text \<open>
  C9. For every integer \<open>v\<close>, the blur size stored by \<^verbatim>\<open>set_blur_size\<close> is odd: it is
  \<open>v\<close> itself when \<open>v\<close> is odd and \<open>v + 1\<close> when \<open>v\<close> is even. No value is rejected, and
  no other field of the processor changes.
\<close>

theorem set_blur_size_odd:
  "odd (blur_size (set_blur_size self v))
   \<and> (odd v \<longrightarrow> blur_size (set_blur_size self v) = v)
   \<and> (even v \<longrightarrow> blur_size (set_blur_size self v) = v + 1)
   \<and> width (set_blur_size self v) = width self
   \<and> height (set_blur_size self v) = height self
   \<and> cursor_positions (set_blur_size self v) = cursor_positions self"
proof -
  have "v mod 2 = 1 \<longleftrightarrow> odd v" by presburger
  moreover have "even v \<Longrightarrow> odd (v + 1)" by simp
  ultimately show ?thesis unfolding set_blur_size_def by simp
qed

theorem set_blur_size_odd_witness:
  "blur_size (set_blur_size
      \<lparr>blur_size = 15, width = 4, height = 3, colormap = ''hot'',
       cursor_positions = [], total_frames = 10, fps = 25\<rparr> 8) = 9
   \<and> blur_size (set_blur_size
      \<lparr>blur_size = 15, width = 4, height = 3, colormap = ''hot'',
       cursor_positions = [], total_frames = 10, fps = 25\<rparr> (- 7)) = - 7"
  using set_blur_size_odd
    [of "\<lparr>blur_size = 15, width = 4, height = 3, colormap = ''hot'',
         cursor_positions = [], total_frames = 10, fps = 25\<rparr>" 8]
    set_blur_size_odd
    [of "\<lparr>blur_size = 15, width = 4, height = 3, colormap = ''hot'',
         cursor_positions = [], total_frames = 10, fps = 25\<rparr>" "- 7"]
  by simp

subsection \<open>The window filter of \<^verbatim>\<open>generate_heatmap\<close>\<close>

lemma positions_loop_eq:
  "positions_loop s e w h trail acc =
   acc @ map position_of (filter (\<lambda>smp. in_window s e smp \<and> in_bounds w h smp) trail)"
proof (induction trail arbitrary: acc)
  case Nil
  show ?case by simp
next
  case (Cons smp rest)
  obtain t x y where smp: "smp = (t, x, y)" by (cases smp) auto
  show ?case
    unfolding smp
    by (simp add: Cons.IH position_of_def in_window_def in_bounds_def)
qed

lemma render_no_positions: "render circle blur self res hm [] = Inr hm"
  by (simp add: render_def)

lemma generate_heatmap_eq_render:
  "generate_heatmap circle blur self s e res =
   render circle blur self res (zeros (height self) (width self))
     (map position_of
        (filter (\<lambda>smp. in_window s e smp \<and> in_bounds (width self) (height self) smp)
           (cursor_positions self)))"
  by (simp add: generate_heatmap_def Let_def positions_loop_eq render_no_positions)

lemma fold_splat_error:
  "fold (\<lambda>p acc. case acc of Inl e \<Rightarrow> Inl e | Inr hm' \<Rightarrow> circle hm' p radius) ps (Inl e) = Inl e"
  by (induction ps) simp_all

lemma draw_loop_splat_all:
  "draw_loop circle res ps hm = splat_all circle (res div 4) ps hm"
proof (induction ps arbitrary: hm)
  case Nil
  show ?case by (simp add: splat_all_def)
next
  case (Cons p ps)
  obtain x y where p: "p = (x, y)" by (cases p)
  show ?case
  proof (cases "circle hm (x, y) (res div 4)")
    case (Inl e)
    then show ?thesis unfolding p by (simp add: splat_all_def fold_splat_error)
  next
    case (Inr hm1)
    with Cons.IH [of hm1] show ?thesis unfolding p by (simp add: splat_all_def)
  qed
qed

lemma generate_heatmap_field_of_positions:
  "generate_heatmap circle blur self s e res =
     field_of_positions circle blur (blur_size self) (res div 4) (height self) (width self)
       (window_positions s e (width self) (height self) (cursor_positions self))"
  unfolding generate_heatmap_eq_render render_def draw_loop_splat_all
    field_of_positions_def window_positions_def
  by (simp split: sum.splits)

text \<open>
  C2. \<^verbatim>\<open>generate_heatmap\<close> builds its field from the positions of exactly the samples
  with \<open>start_time \<le> t \<le> end_time\<close> and \<open>0 \<le> x < width\<close>, \<open>0 \<le> y < height\<close>, in trail
  order: for every window, whatever \<^verbatim>\<open>cv2.circle\<close> and \<^verbatim>\<open>cv2.GaussianBlur\<close> do, its
  result is the field of those positions, and a position is among them exactly when
  a sample of the trail in the window and inside the frame has it. A sample inside
  the frame whose timestamp is \<open>start_time\<close> or \<open>end_time\<close> is drawn. When the window
  contains every sample of the trail, the field is the one drawn from all samples
  inside the frame with no test on the timestamp, and so is the same for any two
  such windows.
\<close>

theorem generate_heatmap_window_filter:
  "generate_heatmap circle blur self s e res =
     field_of_positions circle blur (blur_size self) (res div 4) (height self) (width self)
       (window_positions s e (width self) (height self) (cursor_positions self))
   \<and> ((x, y) \<in> set (window_positions s e w h trail) \<longleftrightarrow>
        (\<exists>t. (t, x, y) \<in> set trail \<and> s \<le> t \<and> t \<le> e
             \<and> 0 \<le> x \<and> x < int w \<and> 0 \<le> y \<and> y < int h))
   \<and> positions_loop s e w h trail [] =
     map position_of (filter (\<lambda>smp. in_window s e smp \<and> in_bounds w h smp) trail)
   \<and> ((t, x, y) \<in> set trail \<and> s \<le> e \<and> (t = s \<or> t = e) \<and> in_bounds w h (t, x, y)
        \<longrightarrow> (x, y) \<in> set (positions_loop s e w h trail []))
   \<and> ((\<forall>smp \<in> set (cursor_positions self). in_window s e smp)
        \<longrightarrow> generate_heatmap circle blur self s e res =
            render circle blur self res (zeros (height self) (width self))
              (unbounded_window_positions (width self) (height self) (cursor_positions self)))
   \<and> ((\<forall>smp \<in> set (cursor_positions self). in_window s e smp \<and> in_window s' e' smp)
        \<longrightarrow> generate_heatmap circle blur self s e res =
            generate_heatmap circle blur self s' e' res)"
proof (intro conjI impI)
  show "generate_heatmap circle blur self s e res =
     field_of_positions circle blur (blur_size self) (res div 4) (height self) (width self)
       (window_positions s e (width self) (height self) (cursor_positions self))"
    by (rule generate_heatmap_field_of_positions)
  show "(x, y) \<in> set (window_positions s e w h trail) \<longleftrightarrow>
        (\<exists>t. (t, x, y) \<in> set trail \<and> s \<le> t \<and> t \<le> e
             \<and> 0 \<le> x \<and> x < int w \<and> 0 \<le> y \<and> y < int h)"
    by (force simp: window_positions_def position_of_def in_window_def in_bounds_def)
  show eq: "positions_loop s e w h trail [] =
     map position_of (filter (\<lambda>smp. in_window s e smp \<and> in_bounds w h smp) trail)"
    by (simp add: positions_loop_eq)
  show "(x, y) \<in> set (positions_loop s e w h trail [])"
    if h: "(t, x, y) \<in> set trail \<and> s \<le> e \<and> (t = s \<or> t = e) \<and> in_bounds w h (t, x, y)"
  proof -
    from h have "in_window s e (t, x, y)" by (auto simp: in_window_def)
    with h have "(t, x, y) \<in> set (filter (\<lambda>smp. in_window s e smp \<and> in_bounds w h smp) trail)"
      by simp
    then have "position_of (t, x, y) \<in> set (positions_loop s e w h trail [])"
      unfolding eq by (simp only: set_map) (rule imageI)
    then show ?thesis by (simp add: position_of_def)
  qed
  show "generate_heatmap circle blur self s e res =
      render circle blur self res (zeros (height self) (width self))
        (unbounded_window_positions (width self) (height self) (cursor_positions self))"
    if h: "\<forall>smp \<in> set (cursor_positions self). in_window s e smp"
  proof -
    have "filter (\<lambda>smp. in_window s e smp \<and> in_bounds (width self) (height self) smp)
            (cursor_positions self) =
          filter (in_bounds (width self) (height self)) (cursor_positions self)"
      using h by (intro filter_cong) auto
    then show ?thesis
      by (simp add: generate_heatmap_eq_render unbounded_window_positions_def)
  qed
  show "generate_heatmap circle blur self s e res = generate_heatmap circle blur self s' e' res"
    if h: "\<forall>smp \<in> set (cursor_positions self). in_window s e smp \<and> in_window s' e' smp"
  proof -
    have "filter (\<lambda>smp. in_window s e smp \<and> in_bounds (width self) (height self) smp)
            (cursor_positions self) =
          filter (\<lambda>smp. in_window s' e' smp \<and> in_bounds (width self) (height self) smp)
            (cursor_positions self)"
      using h by (intro filter_cong) auto
    then show ?thesis by (simp add: generate_heatmap_eq_render)
  qed
qed

text \<open>
  The theorem at a trail of four samples on a 10 by 10 frame, with the window
  \<open>[1, 2]\<close>: the samples at both ends of the window are drawn, the one outside the
  frame and the one after the window are not. The circle of the example writes the
  position it is given on top of the field; the blur returns the field as it is.
  With the window \<open>[0, 9]\<close>, which contains every sample, the sample after the
  window \<open>[1, 2]\<close> is drawn too.
\<close>

theorem generate_heatmap_window_filter_witness:
  "generate_heatmap (\<lambda>hm c r. Inr ([real_of_int (fst c), real_of_int (snd c)] # hm))
        (\<lambda>hm k. Inr hm)
        \<lparr>blur_size = 15, width = 10, height = 10, colormap = ''hot'',
         cursor_positions = [(1, 3, 4), (3 / 2, 10, 4), (2, 5, 6), (5 / 2, 7, 7)],
         total_frames = 4, fps = 1\<rparr> 1 2 100
     = Inr ([5, 6] # [3, 4] # zeros 10 10)
   \<and> generate_heatmap (\<lambda>hm c r. Inr ([real_of_int (fst c), real_of_int (snd c)] # hm))
        (\<lambda>hm k. Inr hm)
        \<lparr>blur_size = 15, width = 10, height = 10, colormap = ''hot'',
         cursor_positions = [(1, 3, 4), (3 / 2, 10, 4), (2, 5, 6), (5 / 2, 7, 7)],
         total_frames = 4, fps = 1\<rparr> 0 9 100
     = Inr ([7, 7] # [5, 6] # [3, 4] # zeros 10 10)
   \<and> positions_loop 1 2 10 10 [(1, 3, 4), (3 / 2, 10, 4), (2, 5, 6), (5 / 2, 7, 7)] []
     = [(3, 4), (5, 6)]
   \<and> (3, 4) \<in> set (positions_loop 1 2 10 10 [(1, 3, 4), (3 / 2, 10, 4), (2, 5, 6), (5 / 2, 7, 7)] [])
   \<and> generate_heatmap (\<lambda>hm c r. Inr ([real_of_int (fst c), real_of_int (snd c)] # hm))
        (\<lambda>hm k. Inr hm)
        \<lparr>blur_size = 15, width = 10, height = 10, colormap = ''hot'',
         cursor_positions = [(1, 3, 4)], total_frames = 4, fps = 1\<rparr> 1 1 100
     = generate_heatmap (\<lambda>hm c r. Inr ([real_of_int (fst c), real_of_int (snd c)] # hm))
        (\<lambda>hm k. Inr hm)
        \<lparr>blur_size = 15, width = 10, height = 10, colormap = ''hot'',
         cursor_positions = [(1, 3, 4)], total_frames = 4, fps = 1\<rparr> 0 9 100"
proof -
  let ?trail = "[(1, 3, 4), (3 / 2, 10, 4), (2, 5, 6), (5 / 2, 7, 7)] :: sample list"
  let ?circle = "\<lambda>(hm :: field) (c :: int \<times> int) (r :: int).
      (Inr ([real_of_int (fst c), real_of_int (snd c)] # hm) :: error + field)"
  let ?blur = "\<lambda>(hm :: field) (k :: int). (Inr hm :: error + field)"
  let ?self = "\<lparr>blur_size = 15, width = 10, height = 10, colormap = ''hot'',
      cursor_positions = [(1, 3, 4)], total_frames = 4, fps = 1\<rparr>"
  let ?self4 = "\<lparr>blur_size = 15, width = 10, height = 10, colormap = ''hot'',
      cursor_positions = ?trail, total_frames = 4, fps = 1\<rparr>"
  have w12: "window_positions 1 2 10 10 ?trail = [(3, 4), (5, 6)]"
    by (simp add: window_positions_def in_window_def in_bounds_def position_of_def)
  have w09: "window_positions 0 9 10 10 ?trail = [(3, 4), (5, 6), (7, 7)]"
    by (simp add: window_positions_def in_window_def in_bounds_def position_of_def)
  have g12: "generate_heatmap ?circle ?blur ?self4 1 2 100 = Inr ([5, 6] # [3, 4] # zeros 10 10)"
    unfolding generate_heatmap_window_filter
      [where circle = ?circle and blur = ?blur and self = ?self4 and s = 1 and e = 2
         and res = 100, THEN conjunct1]
    by (simp add: w12 field_of_positions_def splat_all_def)
  have g09: "generate_heatmap ?circle ?blur ?self4 0 9 100
      = Inr ([7, 7] # [5, 6] # [3, 4] # zeros 10 10)"
    unfolding generate_heatmap_window_filter
      [where circle = ?circle and blur = ?blur and self = ?self4 and s = 0 and e = 9
         and res = 100, THEN conjunct1]
    by (simp add: w09 field_of_positions_def splat_all_def)
  note th = generate_heatmap_window_filter
    [where s = 1 and e = 2 and w = 10 and h = 10 and trail = ?trail and t = 1 and x = 3
       and y = 4]
  have a: "positions_loop 1 2 10 10 ?trail [] = [(3, 4), (5, 6)]"
    using th [THEN conjunct2, THEN conjunct2, THEN conjunct1]
    by (simp add: in_window_def in_bounds_def position_of_def)
  have b: "(3, 4) \<in> set (positions_loop 1 2 10 10 ?trail [])"
    by (rule th [THEN conjunct2, THEN conjunct2, THEN conjunct2, THEN conjunct1, THEN mp])
       (simp add: in_bounds_def)
  have c: "generate_heatmap ?circle ?blur ?self 1 1 100 = generate_heatmap ?circle ?blur ?self 0 9 100"
    by (rule generate_heatmap_window_filter
          [where circle = ?circle and blur = ?blur and self = ?self and s = 1 and e = 1
             and s' = 0 and e' = 9 and res = 100,
           THEN conjunct2, THEN conjunct2, THEN conjunct2, THEN conjunct2, THEN conjunct2,
           THEN mp])
       (simp add: in_window_def)
  from g12 g09 a b c show ?thesis by simp
qed

subsection \<open>A window with no sample\<close>

text \<open>
  C3. When no sample of the trail lies both in the window and inside the frame,
  \<^verbatim>\<open>generate_heatmap\<close> returns the all-zero field of the frame's dimensions and raises
  nothing, whatever \<^verbatim>\<open>cv2.circle\<close> and \<^verbatim>\<open>cv2.GaussianBlur\<close> would do: neither is
  called, so the smoothing pass is skipped. An empty trail and an inverted window
  (\<open>end_time < start_time\<close>) are two such cases. The field has \<open>height\<close> rows of
  \<open>width\<close> zeros.
\<close>

theorem generate_heatmap_no_samples:
  "((\<forall>smp \<in> set (cursor_positions self).
        \<not> (in_window s e smp \<and> in_bounds (width self) (height self) smp))
      \<longrightarrow> generate_heatmap circle blur self s e res = Inr (zeros (height self) (width self)))
   \<and> (cursor_positions self = []
      \<longrightarrow> generate_heatmap circle blur self s e res = Inr (zeros (height self) (width self)))
   \<and> (e < s
      \<longrightarrow> generate_heatmap circle blur self s e res = Inr (zeros (height self) (width self)))
   \<and> length (zeros (height self) (width self)) = height self
   \<and> (\<forall>row \<in> set (zeros (height self) (width self)).
         length row = width self \<and> (\<forall>v \<in> set row. v = 0))"
proof -
  have none: "generate_heatmap circle blur self s e res = Inr (zeros (height self) (width self))"
    if h: "\<forall>smp \<in> set (cursor_positions self).
             \<not> (in_window s e smp \<and> in_bounds (width self) (height self) smp)"
  proof -
    have "filter (\<lambda>smp. in_window s e smp \<and> in_bounds (width self) (height self) smp)
            (cursor_positions self) = []"
      using h by (simp add: filter_empty_conv)
    then show ?thesis
      by (simp add: generate_heatmap_eq_render render_no_positions)
  qed
  have inverted: "\<not> in_window s e smp" if "e < s" for smp
    using that by (cases smp) (auto simp: in_window_def)
  have "cursor_positions self = [] \<Longrightarrow>
      generate_heatmap circle blur self s e res = Inr (zeros (height self) (width self))"
    by (rule none) simp
  moreover have "e < s \<Longrightarrow>
      generate_heatmap circle blur self s e res = Inr (zeros (height self) (width self))"
    by (rule none) (simp add: inverted)
  moreover have "length (zeros (height self) (width self)) = height self"
    by (simp add: zeros_def)
  moreover have "\<forall>row \<in> set (zeros (height self) (width self)).
         length row = width self \<and> (\<forall>v \<in> set row. v = 0)"
    by (auto simp: zeros_def)
  ultimately show ?thesis using none by blast
qed

text \<open>
  The theorem on a 2 by 1 frame, with a circle and a blur that both raise: a trail
  whose only sample is after the window, an empty trail, and the inverted window
  \<open>[2, 1]\<close> around a sample at \<open>3 / 2\<close>.
\<close>

theorem generate_heatmap_no_samples_witness:
  "generate_heatmap (\<lambda>hm c r. Inl CvError) (\<lambda>hm k. Inl CvError)
      \<lparr>blur_size = 15, width = 2, height = 1, colormap = ''hot'',
       cursor_positions = [(5, 1, 0)], total_frames = 4, fps = 1\<rparr> 0 1 100 = Inr [[0, 0]]
   \<and> generate_heatmap (\<lambda>hm c r. Inl CvError) (\<lambda>hm k. Inl CvError)
      \<lparr>blur_size = 15, width = 2, height = 1, colormap = ''hot'',
       cursor_positions = [], total_frames = 4, fps = 1\<rparr> 0 1 100 = Inr [[0, 0]]
   \<and> generate_heatmap (\<lambda>hm c r. Inl CvError) (\<lambda>hm k. Inl CvError)
      \<lparr>blur_size = 15, width = 2, height = 1, colormap = ''hot'',
       cursor_positions = [(3 / 2, 1, 0)], total_frames = 4, fps = 1\<rparr> 2 1 100 = Inr [[0, 0]]"
proof -
  let ?circle = "\<lambda>(hm :: field) (c :: int \<times> int) (r :: int). (Inl CvError :: error + field)"
  let ?blur = "\<lambda>(hm :: field) (k :: int). (Inl CvError :: error + field)"
  let ?self = "\<lambda>trail. \<lparr>blur_size = 15, width = 2, height = 1, colormap = ''hot'',
      cursor_positions = trail, total_frames = 4, fps = 1\<rparr>"
  have a: "generate_heatmap ?circle ?blur (?self [(5, 1, 0)]) 0 1 100 = Inr [[0, 0]]"
    using generate_heatmap_no_samples [of "?self [(5, 1, 0)]" 0 1 ?circle ?blur 100]
    by (simp add: in_window_def zeros_def eval_nat_numeral)
  have b: "generate_heatmap ?circle ?blur (?self []) 0 1 100 = Inr [[0, 0]]"
    using generate_heatmap_no_samples [of "?self []" 0 1 ?circle ?blur 100]
    by (simp add: zeros_def eval_nat_numeral)
  have c: "generate_heatmap ?circle ?blur (?self [(3 / 2, 1, 0)]) 2 1 100 = Inr [[0, 0]]"
    using generate_heatmap_no_samples [of "?self [(3 / 2, 1, 0)]" 2 1 ?circle ?blur 100]
    by (simp add: zeros_def eval_nat_numeral)
  from a b c show ?thesis by simp
qed

subsection \<open>The radius of the disks\<close>

lemma draw_loop_radius:
  "draw_loop circle res ps hm = draw_loop (\<lambda>hm c r. circle hm c (res div 4)) res ps hm"
  by (induction ps arbitrary: hm) (auto split: sum.splits)

lemma draw_loop_total:
  assumes "\<forall>hm c. \<exists>hm'. circle hm c (res div 4) = Inr hm'"
  shows "\<exists>hm'. draw_loop circle res ps hm = Inr hm'"
proof (induction ps arbitrary: hm)
  case Nil
  show ?case by simp
next
  case (Cons p ps)
  obtain x y where p: "p = (x, y)" by (cases p)
  from assms obtain hm1 where "circle hm (x, y) (res div 4) = Inr hm1" by blast
  with Cons.IH [of hm1] show ?case unfolding p by simp
qed

text \<open>
  C8, as the code has it. \<^verbatim>\<open>generate_heatmap\<close> hands \<^verbatim>\<open>resolution // 4\<close> to \<^verbatim>\<open>cv2.circle\<close>
  as it is: the result is the same when every call is given that radius whatever
  the loop passes. The radius is at least 1 exactly when \<open>resolution \<ge> 4\<close>; no
  minimum is applied to it. \<^verbatim>\<open>generate_heatmap\<close> raises nothing of its own: when
  \<^verbatim>\<open>cv2.circle\<close> accepts that radius and \<^verbatim>\<open>cv2.GaussianBlur\<close> accepts the blur size, it
  returns a field.
\<close>

theorem generate_heatmap_radius:
  "generate_heatmap circle blur self s e res =
     generate_heatmap (\<lambda>hm c r. circle hm c (res div 4)) blur self s e res
   \<and> (1 \<le> res div 4 \<longleftrightarrow> 4 \<le> res)
   \<and> ((\<forall>hm c. \<exists>hm'. circle hm c (res div 4) = Inr hm')
        \<and> (\<forall>hm. \<exists>hm'. blur hm (blur_size self) = Inr hm')
      \<longrightarrow> (\<exists>hm'. generate_heatmap circle blur self s e res = Inr hm'))"
proof (intro conjI impI)
  show "generate_heatmap circle blur self s e res =
     generate_heatmap (\<lambda>hm c r. circle hm c (res div 4)) blur self s e res"
    unfolding generate_heatmap_def render_def Let_def
    by (subst draw_loop_radius) (rule refl)
  show "1 \<le> res div 4 \<longleftrightarrow> 4 \<le> res" by presburger
  show "\<exists>hm'. generate_heatmap circle blur self s e res = Inr hm'"
    if h: "(\<forall>hm c. \<exists>hm'. circle hm c (res div 4) = Inr hm')
           \<and> (\<forall>hm. \<exists>hm'. blur hm (blur_size self) = Inr hm')"
  proof -
    let ?ps = "map position_of
        (filter (\<lambda>smp. in_window s e smp \<and> in_bounds (width self) (height self) smp)
           (cursor_positions self))"
    from h draw_loop_total [of circle res ?ps "zeros (height self) (width self)"]
    obtain hm1 where d: "draw_loop circle res ?ps (zeros (height self) (width self)) = Inr hm1"
      by blast
    from h obtain hm2 where b: "blur hm1 (blur_size self) = Inr hm2" by blast
    show ?thesis
      unfolding generate_heatmap_eq_render render_def using d b by simp
  qed
qed

text \<open>
  The theorem at the default resolution 100, with a circle that writes the radius
  it is given into the field: the radius is 25.
\<close>

theorem generate_heatmap_radius_witness:
  "generate_heatmap (\<lambda>hm c r. Inr [[real_of_int r]]) (\<lambda>hm k. Inr hm)
      \<lparr>blur_size = 15, width = 10, height = 10, colormap = ''hot'',
       cursor_positions = [(0, 5, 5)], total_frames = 4, fps = 1\<rparr> 0 1 100 = Inr [[25]]
   \<and> (1 :: int) \<le> 100 div 4"
proof -
  let ?circle = "\<lambda>(hm :: field) (c :: int \<times> int) (r :: int). (Inr [[real_of_int r]] :: error + field)"
  let ?blur = "\<lambda>(hm :: field) (k :: int). (Inr hm :: error + field)"
  let ?self = "\<lparr>blur_size = 15, width = 10, height = 10, colormap = ''hot'',
      cursor_positions = [(0, 5, 5)], total_frames = 4, fps = 1\<rparr>"
  note th = generate_heatmap_radius [of ?circle ?blur ?self 0 1 100]
  have "generate_heatmap ?circle ?blur ?self 0 1 100 = Inr [[25]]"
    by (subst th [THEN conjunct1]) (simp add: generate_heatmap_def render_def)
  moreover from th have "(1 :: int) \<le> 100 div 4" by simp
  ultimately show ?thesis by simp
qed

text \<open>
  C8, as the specification has it, fails. At resolution 3 a circle that
  writes the radius it is given into the field shows the radius 0, not 1; at
  resolution \<open>- 1\<close> the radius is \<open>- 1\<close>, and with a circle that raises on a negative
  radius \<^verbatim>\<open>generate_heatmap\<close> raises.
\<close>

theorem generate_heatmap_radius_counterexample:
  "generate_heatmap (\<lambda>hm c r. Inr [[real_of_int r]]) (\<lambda>hm k. Inr hm)
      \<lparr>blur_size = 15, width = 10, height = 10, colormap = ''hot'',
       cursor_positions = [(0, 5, 5)], total_frames = 4, fps = 1\<rparr> 0 1 3 = Inr [[0]]
   \<and> generate_heatmap (\<lambda>hm c r. if r < 0 then Inl CvError else Inr hm) (\<lambda>hm k. Inr hm)
      \<lparr>blur_size = 15, width = 10, height = 10, colormap = ''hot'',
       cursor_positions = [(0, 5, 5)], total_frames = 4, fps = 1\<rparr> 0 1 (- 1) = Inl CvError"
  by (simp add: generate_heatmap_def render_def)

subsection \<open>The contour filter and the selection\<close>

lemma filter_step_eq:
  "filter_step lo hi c acc =
     acc @ (if survives lo hi c then [(c, area c, circularity c)] else [])"
  by (simp add: filter_step_def survives_def circularity_def aspect_ratio_def Let_def
      power2_eq_square)

lemma filter_loop_eq:
  "filter_loop lo hi cs acc =
     acc @ map (\<lambda>c. (c, area c, circularity c)) (filter (survives lo hi) cs)"
  by (induction cs arbitrary: acc) (simp_all add: filter_step_eq)

lemma last_filter_same_key:
  assumes "zs \<noteq> []"
  shows "last (filter (\<lambda>x. f x = f (last zs)) zs) = last zs"
proof -
  from assms obtain ws w where zs: "zs = ws @ [w]" by (cases zs rule: rev_cases) auto
  show ?thesis unfolding zs by simp
qed

lemma hd_sort_reverse:
  assumes "xs \<noteq> []"
  shows "hd (sort_reverse f xs) = hd (filter (\<lambda>x. \<forall>y \<in> set xs. f y \<le> f x) xs)"
proof -
  let ?ys = "sort_key f (rev xs)"
  let ?z = "last ?ys"
  have ne: "?ys \<noteq> []" using assms by (metis length_0_conv length_sort rev_is_Nil_conv)
  have zin: "?z \<in> set xs" using last_in_set [OF ne] by simp
  have srt: "sorted (map f ?ys)" by (rule sorted_sort_key)
  have zmax: "\<forall>y \<in> set xs. f y \<le> f ?z"
  proof
    fix y assume "y \<in> set xs"
    then have "y \<in> set ?ys" by simp
    then obtain i where i: "i < length ?ys" "?ys ! i = y"
      unfolding in_set_conv_nth by blast
    have "map f ?ys ! i \<le> map f ?ys ! (length ?ys - 1)"
      using srt i(1) by (intro sorted_nth_mono) auto
    then show "f y \<le> f ?z" using i ne by (simp add: last_conv_nth)
  qed
  let ?P = "\<lambda>x. f x = f ?z"
  have same: "filter (\<lambda>x. \<forall>y \<in> set xs. f y \<le> f x) xs = filter ?P xs"
  proof (rule filter_cong [OF refl])
    fix x assume x: "x \<in> set xs"
    show "(\<forall>y \<in> set xs. f y \<le> f x) = (f x = f ?z)"
      using zmax zin x by (auto intro: antisym)
  qed
  have "?z = last (filter ?P ?ys)"
    using last_filter_same_key [OF ne, of f] by simp
  also have "filter ?P ?ys = filter ?P (rev xs)" by (rule sort_key_stable)
  also have "last (filter ?P (rev xs)) = hd (filter ?P xs)"
    by (simp add: rev_filter [symmetric] last_rev)
  finally have z: "?z = hd (filter ?P xs)" .
  show ?thesis unfolding sort_reverse_def hd_rev same by (rule z)
qed

lemma hd_sort_reverse_greatest:
  assumes "xs \<noteq> []"
  shows "hd (sort_reverse f xs) \<in> set xs \<and> (\<forall>y \<in> set xs. f y \<le> f (hd (sort_reverse f xs)))"
proof -
  let ?ys = "sort_key f (rev xs)"
  have ne: "?ys \<noteq> []" using assms by (metis length_0_conv length_sort rev_is_Nil_conv)
  have zin: "last ?ys \<in> set xs" using last_in_set [OF ne] by simp
  have srt: "sorted (map f ?ys)" by (rule sorted_sort_key)
  have "f y \<le> f (last ?ys)" if "y \<in> set xs" for y
  proof -
    from that have "y \<in> set ?ys" by simp
    then obtain i where i: "i < length ?ys" "?ys ! i = y"
      unfolding in_set_conv_nth by blast
    have "map f ?ys ! i \<le> map f ?ys ! (length ?ys - 1)"
      using srt i(1) by (intro sorted_nth_mono) auto
    then show ?thesis using i ne by (simp add: last_conv_nth)
  qed
  with zin show ?thesis by (simp add: sort_reverse_def hd_rev)
qed

lemma greatest_filter_nonempty:
  fixes f :: "'a \<Rightarrow> real"
  assumes "xs \<noteq> []"
  shows "filter (\<lambda>x. \<forall>y \<in> set xs. f y \<le> f x) xs \<noteq> []"
proof -
  from hd_sort_reverse_greatest [OF assms, of f]
  have "hd (sort_reverse f xs) \<in> set (filter (\<lambda>x. \<forall>y \<in> set xs. f y \<le> f x) xs)"
    by simp
  then show ?thesis by (metis empty_iff empty_set)
qed

lemma best_survivor_props:
  assumes "survivors lo hi cs \<noteq> []"
  shows "best_survivor lo hi cs \<in> set (survivors lo hi cs)"
    and "\<forall>d \<in> set (survivors lo hi cs). score d \<le> score (best_survivor lo hi cs)"
proof -
  let ?vs = "survivors lo hi cs"
  let ?ms = "filter (\<lambda>c. \<forall>d \<in> set ?vs. score d \<le> score c) ?vs"
  have ne: "?ms \<noteq> []" by (rule greatest_filter_nonempty [OF assms])
  have b: "best_survivor lo hi cs = hd ?ms"
    by (simp add: best_survivor_def list_all_iff)
  from ne have "hd ?ms \<in> set ?ms" by (rule hd_in_set)
  then show "best_survivor lo hi cs \<in> set ?vs"
    and "\<forall>d \<in> set ?vs. score d \<le> score (best_survivor lo hi cs)"
    unfolding b by auto
qed

lemma hd_sorted_valid:
  assumes "survivors lo hi cs \<noteq> []"
  shows "fst (hd (sort_reverse (\<lambda>x. fst (snd x) * snd (snd x)) (filter_loop lo hi cs [])))
         = best_survivor lo hi cs"
proof -
  let ?vs = "survivors lo hi cs"
  let ?g = "\<lambda>c. (c, area c, circularity c)"
  let ?key = "\<lambda>x :: contour \<times> real \<times> real. fst (snd x) * snd (snd x)"
  let ?ms = "filter (\<lambda>c. \<forall>d \<in> set ?vs. score d \<le> score c) ?vs"
  have valid: "filter_loop lo hi cs [] = map ?g ?vs"
    by (simp add: filter_loop_eq survivors_def)
  have ne: "map ?g ?vs \<noteq> []" using assms by simp
  have ms: "?ms \<noteq> []" by (rule greatest_filter_nonempty [OF assms])
  have "hd (sort_reverse ?key (map ?g ?vs))
        = hd (filter (\<lambda>x. \<forall>y \<in> set (map ?g ?vs). ?key y \<le> ?key x) (map ?g ?vs))"
    by (rule hd_sort_reverse [OF ne])
  also have "filter (\<lambda>x. \<forall>y \<in> set (map ?g ?vs). ?key y \<le> ?key x) (map ?g ?vs) = map ?g ?ms"
    by (simp add: filter_map o_def score_def)
  also have "hd (map ?g ?ms) = ?g (hd ?ms)" using ms by (rule hd_map)
  finally show ?thesis
    unfolding valid by (simp add: best_survivor_def list_all_iff)
qed

lemma select_centroid_eq:
  "select_centroid lo hi cs =
     (if survivors lo hi cs = [] then (- 1, - 1)
      else if m00 (best_survivor lo hi cs) \<noteq> 0 then centroid (best_survivor lo hi cs)
      else (- 1, - 1))"
proof (cases "survivors lo hi cs = []")
  case True
  then have "filter_loop lo hi cs [] = []"
    by (simp add: filter_loop_eq survivors_def)
  with True show ?thesis by (simp add: select_centroid_def)
next
  case False
  then have "filter_loop lo hi cs [] \<noteq> []"
    by (simp add: filter_loop_eq survivors_def)
  with False show ?thesis
    unfolding select_centroid_def Let_def hd_sorted_valid [OF False]
    by (simp add: centroid_def)
qed

lemma detect_cursor_both_frames:
  "detect_cursor_from_difference fc (Some f) (Some pf) thr lo hi
   = select_centroid lo hi (fc f pf thr)"
  by (simp add: detect_cursor_from_difference_def)

text \<open>
  C4. On two frames, \<^verbatim>\<open>detect_cursor_from_difference\<close> filters the contours found
  between them and selects among the survivors. The contours kept by the filter
  loop are, in order, exactly those whose area lies in \<open>[min_area, max_area]\<close>, whose
  circularity \<open>4 \<pi> area / perimeter\<^sup>2\<close> (with a positive perimeter, and \<open>\<pi>\<close> as
  \<^verbatim>\<open>np.pi\<close>) exceeds 0.35, and whose bounding box (of positive height) has an aspect
  ratio in \<open>[0.5, 2]\<close>. When none is kept the result is \<open>(-1, -1)\<close>. Otherwise the
  selected contour is a kept one of greatest \<open>area \<times> circularity\<close> (the first such in
  contour order), and the result is its truncated centroid
  \<open>(int (m10 / m00), int (m01 / m00))\<close> when \<open>m00 \<noteq> 0\<close> and \<open>(-1, -1)\<close> when \<open>m00 = 0\<close>.
\<close>

theorem detect_cursor_filter_and_best:
  "map fst (filter_loop lo hi cs []) = filter (survives lo hi) cs
   \<and> detect_cursor_from_difference fc (Some f) (Some pf) thr lo hi
       = select_centroid lo hi (fc f pf thr)
   \<and> (survivors lo hi (fc f pf thr) = [] \<longrightarrow>
        detect_cursor_from_difference fc (Some f) (Some pf) thr lo hi = (- 1, - 1))
   \<and> (survivors lo hi (fc f pf thr) \<noteq> [] \<longrightarrow>
        best_survivor lo hi (fc f pf thr) \<in> set (fc f pf thr)
        \<and> survives lo hi (best_survivor lo hi (fc f pf thr))
        \<and> (\<forall>d \<in> set (fc f pf thr).
              survives lo hi d \<longrightarrow> score d \<le> score (best_survivor lo hi (fc f pf thr)))
        \<and> (m00 (best_survivor lo hi (fc f pf thr)) \<noteq> 0 \<longrightarrow>
              detect_cursor_from_difference fc (Some f) (Some pf) thr lo hi
              = centroid (best_survivor lo hi (fc f pf thr)))
        \<and> (m00 (best_survivor lo hi (fc f pf thr)) = 0 \<longrightarrow>
              detect_cursor_from_difference fc (Some f) (Some pf) thr lo hi = (- 1, - 1)))"
proof (intro conjI impI)
  show "map fst (filter_loop lo hi cs []) = filter (survives lo hi) cs"
    by (simp add: filter_loop_eq o_def)
  show "detect_cursor_from_difference fc (Some f) (Some pf) thr lo hi
       = select_centroid lo hi (fc f pf thr)"
    by (rule detect_cursor_both_frames)
  show "detect_cursor_from_difference fc (Some f) (Some pf) thr lo hi = (- 1, - 1)"
    if "survivors lo hi (fc f pf thr) = []"
    using that by (simp add: detect_cursor_both_frames select_centroid_eq)
next
  let ?cs = "fc f pf thr"
  assume ne: "survivors lo hi ?cs \<noteq> []"
  note b = best_survivor_props [OF ne]
  from b(1) show "best_survivor lo hi ?cs \<in> set ?cs" by (simp add: survivors_def)
  from b(1) show "survives lo hi (best_survivor lo hi ?cs)" by (simp add: survivors_def)
  from b(2) show "\<forall>d \<in> set ?cs. survives lo hi d \<longrightarrow> score d \<le> score (best_survivor lo hi ?cs)"
    by (simp add: survivors_def)
  show "detect_cursor_from_difference fc (Some f) (Some pf) thr lo hi
        = centroid (best_survivor lo hi ?cs)"
    if "m00 (best_survivor lo hi ?cs) \<noteq> 0"
    using ne that by (simp add: detect_cursor_both_frames select_centroid_eq)
  show "detect_cursor_from_difference fc (Some f) (Some pf) thr lo hi = (- 1, - 1)"
    if "m00 (best_survivor lo hi ?cs) = 0"
    using ne that by (simp add: detect_cursor_both_frames select_centroid_eq)
qed

text \<open>
  The theorem at a detector that finds four contours between frame 1 and frame 0,
  one between frame 2 and frame 1 and one between frame 3 and frame 2, with the
  default bounds 3 and 500. Of the four, the second is too large and the fourth too
  elongated; of the first and the third, the third has the greater score, and its
  centroid \<open>(205 / 20, 61 / 20)\<close> truncates to \<open>(10, 3)\<close>. The single contour of
  frame 2 passes the filter with \<open>m00 = 0\<close>, the one of frame 3 does not pass:
  both give \<open>(-1, -1)\<close>.
\<close>

theorem detect_cursor_filter_and_best_witness:
  "detect_cursor_from_difference
     (\<lambda>f pf thr.
        if f = (1 :: nat) then
          [\<lparr>area = 12, perimeter = 14, box_w = 4, box_h = 4, m00 = 12, m10 = 66, m01 = 90\<rparr>,
           \<lparr>area = 600, perimeter = 90, box_w = 25, box_h = 25, m00 = 600, m10 = 600, m01 = 600\<rparr>,
           \<lparr>area = 20, perimeter = 17, box_w = 5, box_h = 5, m00 = 20, m10 = 205, m01 = 61\<rparr>,
           \<lparr>area = 10, perimeter = 30, box_w = 14, box_h = 1, m00 = 10, m10 = 70, m01 = 10\<rparr>]
        else if f = 2 then
          [\<lparr>area = 12, perimeter = 14, box_w = 4, box_h = 4, m00 = 0, m10 = 66, m01 = 90\<rparr>]
        else
          [\<lparr>area = 600, perimeter = 90, box_w = 25, box_h = 25, m00 = 600, m10 = 600, m01 = 600\<rparr>])
     (Some 1) (Some 0) 15 3 500 = (10, 3)
   \<and> detect_cursor_from_difference
     (\<lambda>f pf thr.
        if f = (1 :: nat) then
          [\<lparr>area = 12, perimeter = 14, box_w = 4, box_h = 4, m00 = 12, m10 = 66, m01 = 90\<rparr>,
           \<lparr>area = 600, perimeter = 90, box_w = 25, box_h = 25, m00 = 600, m10 = 600, m01 = 600\<rparr>,
           \<lparr>area = 20, perimeter = 17, box_w = 5, box_h = 5, m00 = 20, m10 = 205, m01 = 61\<rparr>,
           \<lparr>area = 10, perimeter = 30, box_w = 14, box_h = 1, m00 = 10, m10 = 70, m01 = 10\<rparr>]
        else if f = 2 then
          [\<lparr>area = 12, perimeter = 14, box_w = 4, box_h = 4, m00 = 0, m10 = 66, m01 = 90\<rparr>]
        else
          [\<lparr>area = 600, perimeter = 90, box_w = 25, box_h = 25, m00 = 600, m10 = 600, m01 = 600\<rparr>])
     (Some 2) (Some 1) 15 3 500 = (- 1, - 1)
   \<and> detect_cursor_from_difference
     (\<lambda>f pf thr.
        if f = (1 :: nat) then
          [\<lparr>area = 12, perimeter = 14, box_w = 4, box_h = 4, m00 = 12, m10 = 66, m01 = 90\<rparr>,
           \<lparr>area = 600, perimeter = 90, box_w = 25, box_h = 25, m00 = 600, m10 = 600, m01 = 600\<rparr>,
           \<lparr>area = 20, perimeter = 17, box_w = 5, box_h = 5, m00 = 20, m10 = 205, m01 = 61\<rparr>,
           \<lparr>area = 10, perimeter = 30, box_w = 14, box_h = 1, m00 = 10, m10 = 70, m01 = 10\<rparr>]
        else if f = 2 then
          [\<lparr>area = 12, perimeter = 14, box_w = 4, box_h = 4, m00 = 0, m10 = 66, m01 = 90\<rparr>]
        else
          [\<lparr>area = 600, perimeter = 90, box_w = 25, box_h = 25, m00 = 600, m10 = 600, m01 = 600\<rparr>])
     (Some 3) (Some 2) 15 3 500 = (- 1, - 1)
   \<and> map fst (filter_loop 3 500
     [\<lparr>area = 12, perimeter = 14, box_w = 4, box_h = 4, m00 = 12, m10 = 66, m01 = 90\<rparr>,
      \<lparr>area = 600, perimeter = 90, box_w = 25, box_h = 25, m00 = 600, m10 = 600, m01 = 600\<rparr>,
      \<lparr>area = 20, perimeter = 17, box_w = 5, box_h = 5, m00 = 20, m10 = 205, m01 = 61\<rparr>,
      \<lparr>area = 10, perimeter = 30, box_w = 14, box_h = 1, m00 = 10, m10 = 70, m01 = 10\<rparr>] [])
     = [\<lparr>area = 12, perimeter = 14, box_w = 4, box_h = 4, m00 = 12, m10 = 66, m01 = 90\<rparr>,
        \<lparr>area = 20, perimeter = 17, box_w = 5, box_h = 5, m00 = 20, m10 = 205, m01 = 61\<rparr>]"
proof -
  let ?c1 = "\<lparr>area = 12, perimeter = 14, box_w = 4, box_h = 4, m00 = 12, m10 = 66, m01 = 90\<rparr>"
  let ?c2 = "\<lparr>area = 600, perimeter = 90, box_w = 25, box_h = 25, m00 = 600, m10 = 600, m01 = 600\<rparr>"
  let ?c3 = "\<lparr>area = 20, perimeter = 17, box_w = 5, box_h = 5, m00 = 20, m10 = 205, m01 = 61\<rparr>"
  let ?c4 = "\<lparr>area = 10, perimeter = 30, box_w = 14, box_h = 1, m00 = 10, m10 = 70, m01 = 10\<rparr>"
  let ?c5 = "\<lparr>area = 12, perimeter = 14, box_w = 4, box_h = 4, m00 = 0, m10 = 66, m01 = 90\<rparr>"
  let ?fc = "\<lambda>(f :: nat) (pf :: nat) (thr :: int).
      if f = 1 then [?c1, ?c2, ?c3, ?c4] else if f = 2 then [?c5] else [?c2]"
  have s1: "survives 3 500 ?c1" and s2: "\<not> survives 3 500 ?c2" and s3: "survives 3 500 ?c3"
    and s4: "\<not> survives 3 500 ?c4" and s5: "survives 3 500 ?c5"
    by (simp_all add: survives_def circularity_def aspect_ratio_def np_pi_def)
  have sc: "score ?c1 \<le> score ?c3" "\<not> score ?c3 \<le> score ?c1"
    by (simp_all add: score_def circularity_def np_pi_def)
  have v: "survivors 3 500 [?c1, ?c2, ?c3, ?c4] = [?c1, ?c3]"
    using s1 s2 s3 s4 by (simp add: survivors_def)
  have b: "best_survivor 3 500 [?c1, ?c2, ?c3, ?c4] = ?c3"
    unfolding best_survivor_def v using sc by simp
  have c: "centroid ?c3 = (10, 3)"
    by (simp add: centroid_def py_int_def)
  have v5: "survivors 3 500 [?c5] = [?c5]" using s5 by (simp add: survivors_def)
  have b5: "best_survivor 3 500 [?c5] = ?c5"
    unfolding best_survivor_def v5 by simp
  have v2: "survivors 3 500 [?c2] = []" using s2 by (simp add: survivors_def)
  note th1 = detect_cursor_filter_and_best
    [where fc = ?fc and f = 1 and pf = 0 and thr = 15 and lo = 3 and hi = 500
       and cs = "[?c1, ?c2, ?c3, ?c4]"]
  note th2 = detect_cursor_filter_and_best
    [where fc = ?fc and f = 2 and pf = 1 and thr = 15 and lo = 3 and hi = 500]
  note th3 = detect_cursor_filter_and_best
    [where fc = ?fc and f = 3 and pf = 2 and thr = 15 and lo = 3 and hi = 500]
  have cs1: "?fc 1 0 15 = [?c1, ?c2, ?c3, ?c4]" by simp
  have cs2: "?fc 2 1 15 = [?c5]" by simp
  have cs3: "?fc 3 2 15 = [?c2]" by simp
  from th1 have "survivors 3 500 (?fc 1 0 15) \<noteq> [] \<longrightarrow>
      (m00 (best_survivor 3 500 (?fc 1 0 15)) \<noteq> 0 \<longrightarrow>
         detect_cursor_from_difference ?fc (Some 1) (Some 0) 15 3 500
         = centroid (best_survivor 3 500 (?fc 1 0 15)))"
    by blast
  then have r1: "detect_cursor_from_difference ?fc (Some 1) (Some 0) 15 3 500 = (10, 3)"
    unfolding cs1 v b c by simp
  from th1 have "map fst (filter_loop 3 500 [?c1, ?c2, ?c3, ?c4] [])
      = filter (survives 3 500) [?c1, ?c2, ?c3, ?c4]"
    by blast
  then have r4: "map fst (filter_loop 3 500 [?c1, ?c2, ?c3, ?c4] []) = [?c1, ?c3]"
    using v by (simp only: survivors_def)
  from th2 have "survivors 3 500 (?fc 2 1 15) \<noteq> [] \<longrightarrow>
      (m00 (best_survivor 3 500 (?fc 2 1 15)) = 0 \<longrightarrow>
         detect_cursor_from_difference ?fc (Some 2) (Some 1) 15 3 500 = (- 1, - 1))"
    by blast
  then have r2: "detect_cursor_from_difference ?fc (Some 2) (Some 1) 15 3 500 = (- 1, - 1)"
    unfolding cs2 v5 b5 by simp
  from th3 have "survivors 3 500 (?fc 3 2 15) = [] \<longrightarrow>
      detect_cursor_from_difference ?fc (Some 3) (Some 2) 15 3 500 = (- 1, - 1)"
    by blast
  then have r3: "detect_cursor_from_difference ?fc (Some 3) (Some 2) 15 3 500 = (- 1, - 1)"
    unfolding cs3 v2 by simp
  from r1 r2 r3 r4 show ?thesis by simp
qed

subsection \<open>The sentinel of the detector\<close>






subsection \<open>The detection pass\<close>

lemma run_step_ok:
  assumes "fps self \<noteq> 0" "total_frames self \<noteq> 0"
  shows "run_step rnd fc thr lo hi self frame st =
     Inr \<lparr>frame_count = Suc (frame_count st), prev_frame = Some frame,
          positions = positions st @
            (case prev_frame st of
               None \<Rightarrow> []
             | Some pf \<Rightarrow>
                 (let xy = detect_cursor_from_difference fc (Some frame) (Some pf) thr lo hi
                  in if detected xy then [(real (frame_count st) / fps self, xy)] else [])),
          emitted = emitted st @ [percent rnd (total_frames self) (Suc (frame_count st))]\<rparr>"
  using assms
  by (simp add: run_step_def Let_def detected_def percent_def split: option.splits)

lemma run_loop_append:
  "run_loop rnd fc thr lo hi self (xs @ ys) st =
     (case run_loop rnd fc thr lo hi self xs st of
        Inl e \<Rightarrow> Inl e
      | Inr st' \<Rightarrow> run_loop rnd fc thr lo hi self ys st')"
  by (induction xs arbitrary: st) (auto split: sum.splits)

lemma filter_upt_shift:
  "map g (filter P [0..<Suc n]) =
     (if P 0 then [g 0] else []) @ map (\<lambda>i. g (Suc i)) (filter (\<lambda>i. P (Suc i)) [0..<n])"
proof -
  have "[0..<Suc n] = 0 # map Suc [0..<n]"
    by (simp add: upt_conv_Cons map_Suc_upt del: upt_Suc)
  then show ?thesis by (simp add: filter_map o_def del: upt_Suc)
qed

lemma map_upt_shift:
  "map g [0..<Suc n] = g 0 # map (\<lambda>i. g (Suc i)) [0..<n]"
proof -
  have "[0..<Suc n] = 0 # map Suc [0..<n]"
    by (simp add: upt_conv_Cons map_Suc_upt del: upt_Suc)
  then show ?thesis by (simp add: o_def del: upt_Suc)
qed

lemma detection_at_Cons:
  "detection_at fc thr lo hi (pf # fs) (Suc (Suc i)) = detection_at fc thr lo hi fs (Suc i)"
  by (simp add: detection_at_def)

lemma run_loop_from:
  assumes "fps self \<noteq> 0" "total_frames self \<noteq> 0"
  shows "prev_frame st = Some pf \<Longrightarrow>
    run_loop rnd fc thr lo hi self fs st =
     Inr \<lparr>frame_count = frame_count st + length fs,
          prev_frame = Some (last (pf # fs)),
          positions = positions st @
            map (\<lambda>i. (real (frame_count st + i) / fps self,
                       detection_at fc thr lo hi (pf # fs) (Suc i)))
              (filter (\<lambda>i. detected (detection_at fc thr lo hi (pf # fs) (Suc i)))
                 [0..<length fs]),
          emitted = emitted st @
            map (\<lambda>i. percent rnd (total_frames self) (frame_count st + Suc i)) [0..<length fs]\<rparr>"
proof (induction fs arbitrary: st pf)
  case Nil
  then show ?case by simp
next
  case (Cons f fs)
  let ?st1 = "\<lparr>frame_count = Suc (frame_count st), prev_frame = Some f,
          positions = positions st @
            (let xy = detect_cursor_from_difference fc (Some f) (Some pf) thr lo hi
             in if detected xy then [(real (frame_count st) / fps self, xy)] else []),
          emitted = emitted st @ [percent rnd (total_frames self) (Suc (frame_count st))]\<rparr>"
  have step: "run_step rnd fc thr lo hi self f st = Inr ?st1"
    using run_step_ok [OF assms, of rnd fc thr lo hi f st] Cons.prems by simp
  have d0: "detect_cursor_from_difference fc (Some f) (Some pf) thr lo hi
            = detection_at fc thr lo hi (pf # f # fs) (Suc 0)"
    by (simp add: detection_at_def)
  have ih: "run_loop rnd fc thr lo hi self fs ?st1 = Inr \<lparr>frame_count = frame_count ?st1 + length fs,
          prev_frame = Some (last (f # fs)),
          positions = positions ?st1 @
            map (\<lambda>i. (real (frame_count ?st1 + i) / fps self,
                       detection_at fc thr lo hi (f # fs) (Suc i)))
              (filter (\<lambda>i. detected (detection_at fc thr lo hi (f # fs) (Suc i)))
                 [0..<length fs]),
          emitted = emitted ?st1 @
            map (\<lambda>i. percent rnd (total_frames self) (frame_count ?st1 + Suc i)) [0..<length fs]\<rparr>"
    by (rule Cons.IH) simp
  show ?case
    apply (simp only: run_loop.simps step sum.case ih)
    apply (simp only: length_Cons filter_upt_shift map_upt_shift detection_at_Cons d0 [symmetric])
    apply (simp add: Let_def)
    done
qed

lemma run_loop_initial:
  assumes "fps self \<noteq> 0" "total_frames self \<noteq> 0"
  shows "run_loop rnd fc thr lo hi self fs initial_state =
     Inr \<lparr>frame_count = length fs,
          prev_frame = (if fs = [] then None else Some (last fs)),
          positions = pass_samples fc thr lo hi (fps self) fs,
          emitted = map (percent rnd (total_frames self)) [1..<Suc (length fs)]\<rparr>"
proof (cases fs)
  case Nil
  then show ?thesis by (simp add: initial_state_def pass_samples_def)
next
  case (Cons f0 fs')
  let ?st1 = "\<lparr>frame_count = Suc 0, prev_frame = Some f0, positions = [],
                emitted = [percent rnd (total_frames self) (Suc 0)]\<rparr> :: 'a pass_state"
  have step: "run_step rnd fc thr lo hi self f0 initial_state = Inr ?st1"
    using run_step_ok [OF assms, of rnd fc thr lo hi f0 initial_state]
    by (simp add: initial_state_def)
  have idx: "[1..<Suc (length fs')] = map Suc [0..<length fs']"
    by (simp add: map_Suc_upt del: upt_Suc)
  have rest: "run_loop rnd fc thr lo hi self fs' ?st1 = Inr \<lparr>frame_count = frame_count ?st1 + length fs',
          prev_frame = Some (last (f0 # fs')),
          positions = positions ?st1 @
            map (\<lambda>i. (real (frame_count ?st1 + i) / fps self,
                       detection_at fc thr lo hi (f0 # fs') (Suc i)))
              (filter (\<lambda>i. detected (detection_at fc thr lo hi (f0 # fs') (Suc i)))
                 [0..<length fs']),
          emitted = emitted ?st1 @
            map (\<lambda>i. percent rnd (total_frames self) (frame_count ?st1 + Suc i)) [0..<length fs']\<rparr>"
    by (rule run_loop_from [OF assms]) simp
  have pos: "pass_samples fc thr lo hi (fps self) (f0 # fs') =
      map (\<lambda>i. (real (Suc 0 + i) / fps self, detection_at fc thr lo hi (f0 # fs') (Suc i)))
        (filter (\<lambda>i. detected (detection_at fc thr lo hi (f0 # fs') (Suc i))) [0..<length fs'])"
    unfolding pass_samples_def length_Cons idx by (simp add: filter_map o_def)
  have em: "map (percent rnd (total_frames self)) [1..<Suc (length (f0 # fs'))] =
      [percent rnd (total_frames self) (Suc 0)] @
        map (\<lambda>i. percent rnd (total_frames self) (Suc 0 + Suc i)) [0..<length fs']"
    unfolding length_Cons
    by (simp add: upt_conv_Cons map_Suc_upt [symmetric] o_def del: upt_Suc)
  show ?thesis
    unfolding Cons run_loop.simps step sum.case rest pos em by simp
qed

lemma pass_samples_timestamps:
  "map fst (pass_samples fc thr lo hi fps_v frames) =
     map (\<lambda>i. real i / fps_v)
       (filter (\<lambda>i. detected (detection_at fc thr lo hi frames i)) [1..<length frames])"
  by (simp add: pass_samples_def o_def)

lemma pass_samples_increasing:
  assumes "0 < fps_v"
  shows "sorted_wrt (<) (map fst (pass_samples fc thr lo hi fps_v frames))"
proof -
  let ?idx = "filter (\<lambda>i. detected (detection_at fc thr lo hi frames i)) [1..<length frames]"
  have "sorted_wrt (<) ?idx" by (rule sorted_wrt_filter) simp
  then have "sorted_wrt (\<lambda>i j. real i / fps_v < real j / fps_v) ?idx"
    by (rule sorted_wrt_mono_rel [rotated]) (simp add: assms divide_strict_right_mono)
  then show ?thesis
    unfolding pass_samples_timestamps by (simp add: sorted_wrt_map)
qed

lemma run_loop_ignores_trail:
  "run_loop rnd fc thr lo hi (self\<lparr>cursor_positions := old\<rparr>) fs st = run_loop rnd fc thr lo hi self fs st"
  by (induction fs arbitrary: st) (simp_all add: run_step_def Let_def)

text \<open>
  C5. For a positive frame rate (and a frame count that is not zero), the pass
  returns, and the trail it leaves in the processor is exactly: for each frame index
  \<open>i \<ge> 1\<close>, in increasing order, on which the detector finds a position against frame
  \<open>i - 1\<close>, the sample \<open>(i / fps, x, y)\<close>. Its timestamps increase strictly, so they
  are non-decreasing. The trail does not depend on the trail the processor held
  before the pass: it is rebuilt from the empty list.
\<close>

theorem run_trail_time_ordered:
  "0 < fps self \<and> total_frames self \<noteq> 0 \<longrightarrow>
     (\<exists>progress.
        run rnd fc thr lo hi self (Some frames) =
          Inr (self\<lparr>cursor_positions := pass_samples fc thr lo hi (fps self) frames\<rparr>,
               progress, [True]))
     \<and> run rnd fc thr lo hi (self\<lparr>cursor_positions := old\<rparr>) (Some frames) = run rnd fc thr lo hi self (Some frames)
     \<and> (\<forall>smp \<in> set (pass_samples fc thr lo hi (fps self) frames).
           \<exists>i. 1 \<le> i \<and> i < length frames
             \<and> detected (detection_at fc thr lo hi frames i)
             \<and> smp = (real i / fps self, detection_at fc thr lo hi frames i))
     \<and> sorted_wrt (<) (map fst (pass_samples fc thr lo hi (fps self) frames))
     \<and> sorted (map fst (pass_samples fc thr lo hi (fps self) frames))"
proof (intro impI, elim conjE)
  assume fps: "0 < fps self" and tf: "total_frames self \<noteq> 0"
  from fps have fps0: "fps self \<noteq> 0" by simp
  have a: "\<exists>progress.
        run rnd fc thr lo hi self (Some frames) =
          Inr (self\<lparr>cursor_positions := pass_samples fc thr lo hi (fps self) frames\<rparr>,
               progress, [True])"
    by (simp add: run_def run_loop_initial [OF fps0 tf])
  have b: "run rnd fc thr lo hi (self\<lparr>cursor_positions := old\<rparr>) (Some frames) = run rnd fc thr lo hi self (Some frames)"
    by (simp add: run_def run_loop_ignores_trail split: sum.splits)
  have c: "\<forall>smp \<in> set (pass_samples fc thr lo hi (fps self) frames).
           \<exists>i. 1 \<le> i \<and> i < length frames
             \<and> detected (detection_at fc thr lo hi frames i)
             \<and> smp = (real i / fps self, detection_at fc thr lo hi frames i)"
    by (auto simp: pass_samples_def)
  have d: "sorted_wrt (<) (map fst (pass_samples fc thr lo hi (fps self) frames))"
    by (rule pass_samples_increasing [OF fps])
  then have e: "sorted (map fst (pass_samples fc thr lo hi (fps self) frames))"
    by (rule strict_sorted_imp_sorted)
  from a b c d e show
    "(\<exists>progress.
        run rnd fc thr lo hi self (Some frames) =
          Inr (self\<lparr>cursor_positions := pass_samples fc thr lo hi (fps self) frames\<rparr>,
               progress, [True]))
     \<and> run rnd fc thr lo hi (self\<lparr>cursor_positions := old\<rparr>) (Some frames) = run rnd fc thr lo hi self (Some frames)
     \<and> (\<forall>smp \<in> set (pass_samples fc thr lo hi (fps self) frames).
           \<exists>i. 1 \<le> i \<and> i < length frames
             \<and> detected (detection_at fc thr lo hi frames i)
             \<and> smp = (real i / fps self, detection_at fc thr lo hi frames i))
     \<and> sorted_wrt (<) (map fst (pass_samples fc thr lo hi (fps self) frames))
     \<and> sorted (map fst (pass_samples fc thr lo hi (fps self) frames))"
    by blast
qed

text \<open>
  The theorem at a pass over four frames at 2 frames a second, where the detector
  finds the position \<open>(10, 3)\<close> on frames 1 and 3: the trail is
  \<open>[(1 / 2, 10, 3), (3 / 2, 10, 3)]\<close>, whatever trail the processor held before.
  The quotients \<open>i / 4\<close> and their products with 100 are doubles, so the rounding
  of the progress line is the identity on them.
\<close>

theorem run_trail_time_ordered_witness:
  "run (\<lambda>x. x)
       (\<lambda>f pf thr. if f = (1 :: nat) \<or> f = 3 then
          [\<lparr>area = 20, perimeter = 17, box_w = 5, box_h = 5, m00 = 20, m10 = 205, m01 = 61\<rparr>]
          else [])
       15 3 500
       \<lparr>blur_size = 15, width = 20, height = 20, colormap = ''hot'',
        cursor_positions = [(7, 1, 1)], total_frames = 4, fps = 2\<rparr>
       (Some [0, 1, 2, 3])
     = Inr (\<lparr>blur_size = 15, width = 20, height = 20, colormap = ''hot'',
            cursor_positions = [(1 / 2, 10, 3), (3 / 2, 10, 3)], total_frames = 4, fps = 2\<rparr>,
           [25, 50, 75, 100], [True])
   \<and> sorted (map fst [(1 / 2, 10, 3), (3 / 2, 10, 3) :: sample])"
proof -
  let ?c = "\<lparr>area = 20, perimeter = 17, box_w = 5, box_h = 5, m00 = 20, m10 = 205, m01 = 61\<rparr>"
  let ?fc = "\<lambda>(f :: nat) (pf :: nat) (thr :: int). if f = 1 \<or> f = 3 then [?c] else []"
  let ?self = "\<lparr>blur_size = 15, width = 20, height = 20, colormap = ''hot'',
        cursor_positions = [(7, 1, 1)], total_frames = 4, fps = 2\<rparr>"
  let ?frames = "[0, 1, 2, 3] :: nat list"
  have s: "survives 3 500 ?c"
    by (simp add: survives_def circularity_def aspect_ratio_def np_pi_def)
  have sel: "select_centroid 3 500 [?c] = (10, 3)" "select_centroid 3 500 [] = (- 1, - 1)"
    using s by (simp_all add: select_centroid_eq survivors_def best_survivor_def centroid_def
        py_int_def)
  have d: "detection_at ?fc 15 3 500 ?frames 1 = (10, 3)"
    "detection_at ?fc 15 3 500 ?frames 2 = (- 1, - 1)"
    "detection_at ?fc 15 3 500 ?frames 3 = (10, 3)"
    using sel by (simp_all add: detection_at_def detect_cursor_from_difference_def)
  have idx: "[1..<length ?frames] = [1, 2, 3]"
    by (simp add: upt_conv_Cons)
  have ps: "pass_samples ?fc 15 3 500 2 ?frames = [(1 / 2, 10, 3), (3 / 2, 10, 3)]"
    unfolding pass_samples_def idx using d by (simp add: detected_def)
  have pr: "run (\<lambda>x. x) ?fc 15 3 500 ?self (Some ?frames) =
      Inr (?self\<lparr>cursor_positions := pass_samples ?fc 15 3 500 (fps ?self) ?frames\<rparr>,
           map (percent (\<lambda>x. x) (total_frames ?self)) [1..<Suc (length ?frames)], [True])"
    unfolding run_def by (subst run_loop_initial) simp_all
  have pc: "map (percent (\<lambda>x. x) 4) [1..<Suc (length ?frames)] = [25, 50, 75, 100]"
    by (simp add: upt_conv_Cons percent_def py_int_def)
  note th = run_trail_time_ordered [of ?self "\<lambda>x. x" ?fc 15 3 500 ?frames "[]"]
  from th have "sorted (map fst (pass_samples ?fc 15 3 500 (fps ?self) ?frames))"
    by simp
  then have "sorted (map fst [(1 / 2, 10, 3), (3 / 2, 10, 3) :: sample])"
    using ps by simp
  moreover have "run (\<lambda>x. x) ?fc 15 3 500 ?self (Some ?frames) =
      Inr (?self\<lparr>cursor_positions := [(1 / 2, 10, 3), (3 / 2, 10, 3)]\<rparr>,
           [25, 50, 75, 100], [True])"
    using pr ps pc by simp
  ultimately show ?thesis by simp
qed

subsection \<open>Progress notifications\<close>





subsection \<open>A pass that is stopped\<close>

lemma run_step_grows:
  assumes "run_step rnd fc thr lo hi self f st = Inr st'"
  shows "length (emitted st') = Suc (length (emitted st))
         \<and> (\<exists>more. positions st' = positions st @ more)"
  using assms
  by (auto simp: run_step_def Let_def split: if_splits)

lemma run_loop_grows:
  "run_loop rnd fc thr lo hi self fs st = Inr st' \<Longrightarrow>
     length (emitted st') = length (emitted st) + length fs
     \<and> (\<exists>more. positions st' = positions st @ more)"
proof (induction fs arbitrary: st)
  case Nil
  then show ?case by simp
next
  case (Cons f fs)
  from Cons.prems obtain st1 where
    s1: "run_step rnd fc thr lo hi self f st = Inr st1"
    and r: "run_loop rnd fc thr lo hi self fs st1 = Inr st'"
    by (auto split: sum.splits)
  from run_step_grows [OF s1] Cons.IH [OF r] show ?case by auto
qed

lemma run_loop_upto_take:
  "run_loop_upto rnd fc thr lo hi self k fs st = run_loop rnd fc thr lo hi self (take k fs) st"
proof (induction k arbitrary: fs st)
  case 0
  show ?case by simp
next
  case (Suc k)
  show ?case
  proof (cases fs)
    case Nil
    then show ?thesis by simp
  next
    case (Cons f fs')
    show ?thesis unfolding Cons by (simp add: Suc.IH split: sum.splits)
  qed
qed

text \<open>
  C6, as the code has it. \<^verbatim>\<open>run\<close> takes no cancellation signal and tests none
  between iterations: the only exit of its loop is the end of the frame source, so
  a pass that returns has emitted one progress notification for each frame of the
  source and then \<^verbatim>\<open>finished_processing(True)\<close>. The trail is appended to in the
  processor while the loop runs: a pass stopped once \<open>k\<close> iterations are done leaves
  there the samples of the first \<open>k\<close> frames, which is an initial part of the trail of
  the whole pass. Nothing discards it.
\<close>

theorem run_no_cancellation:
  "(run rnd fc thr lo hi self cap = Inr (p, progress, fin)
      \<longrightarrow> (\<exists>frames. cap = Some frames \<and> length progress = length frames) \<and> fin = [True])
   \<and> (fps self \<noteq> 0 \<and> total_frames self \<noteq> 0 \<longrightarrow>
        (\<exists>st. run_stopped_after rnd fc thr lo hi self frames k = Inr st
           \<and> frame_count st = min k (length frames)
           \<and> positions st = pass_samples fc thr lo hi (fps self) (take k frames)
           \<and> (\<exists>more. pass_samples fc thr lo hi (fps self) frames = positions st @ more)))"
proof (intro conjI impI)
  assume r: "run rnd fc thr lo hi self cap = Inr (p, progress, fin)"
  then obtain frames where cap: "cap = Some frames"
    by (cases cap) (simp_all add: run_def)
  from r obtain st where st: "run_loop rnd fc thr lo hi self frames initial_state = Inr st"
    and eq: "progress = emitted st" "fin = [True]"
    unfolding cap by (auto simp: run_def split: sum.splits)
  from run_loop_grows [OF st] have "length (emitted st) = length frames"
    by (simp add: initial_state_def)
  with eq cap show "\<exists>frames. cap = Some frames \<and> length progress = length frames" by simp
  from eq show "fin = [True]" by simp
next
  assume h: "fps self \<noteq> 0 \<and> total_frames self \<noteq> 0"
  then have f: "fps self \<noteq> 0" and t: "total_frames self \<noteq> 0" by simp_all
  let ?mid = "\<lparr>frame_count = length (take k frames),
          prev_frame = (if take k frames = [] then None else Some (last (take k frames))),
          positions = pass_samples fc thr lo hi (fps self) (take k frames),
          emitted = map (percent rnd (total_frames self)) [1..<Suc (length (take k frames))]\<rparr>"
  have mid: "run_loop rnd fc thr lo hi self (take k frames) initial_state = Inr ?mid"
    by (rule run_loop_initial [OF f t])
  have "run_loop rnd fc thr lo hi self (take k frames @ drop k frames) initial_state
        = run_loop rnd fc thr lo hi self (drop k frames) ?mid"
    unfolding run_loop_append mid by simp
  then have rest: "run_loop rnd fc thr lo hi self (drop k frames) ?mid
        = Inr \<lparr>frame_count = length frames,
          prev_frame = (if frames = [] then None else Some (last frames)),
          positions = pass_samples fc thr lo hi (fps self) frames,
          emitted = map (percent rnd (total_frames self)) [1..<Suc (length frames)]\<rparr>"
    using run_loop_initial [OF f t, of rnd fc thr lo hi frames] by simp
  from run_loop_grows [OF rest]
  obtain more where "pass_samples fc thr lo hi (fps self) frames
      = pass_samples fc thr lo hi (fps self) (take k frames) @ more"
    by auto
  with mid show "\<exists>st. run_stopped_after rnd fc thr lo hi self frames k = Inr st
           \<and> frame_count st = min k (length frames)
           \<and> positions st = pass_samples fc thr lo hi (fps self) (take k frames)
           \<and> (\<exists>more. pass_samples fc thr lo hi (fps self) frames = positions st @ more)"
    unfolding run_stopped_after_def run_loop_upto_take by (auto simp: min_def)
qed

text \<open>
  The theorem at a pass over four frames at 2 frames a second, where the detector
  finds \<open>(10, 3)\<close> on frames 1 and 3, stopped after two iterations: the processor
  holds the sample of frame 1, the first of the two samples of the whole pass.
\<close>

theorem run_no_cancellation_witness:
  "run_stopped_after (\<lambda>x. x)
       (\<lambda>f pf thr. if f = (1 :: nat) \<or> f = 3 then
          [\<lparr>area = 20, perimeter = 17, box_w = 5, box_h = 5, m00 = 20, m10 = 205, m01 = 61\<rparr>]
          else [])
       15 3 500
       \<lparr>blur_size = 15, width = 20, height = 20, colormap = ''hot'',
        cursor_positions = [], total_frames = 4, fps = 2\<rparr>
       [0, 1, 2, 3] 2
     = Inr \<lparr>frame_count = 2, prev_frame = Some 1, positions = [(1 / 2, 10, 3)],
            emitted = [25, 50]\<rparr>
   \<and> pass_samples
       (\<lambda>f pf thr. if f = (1 :: nat) \<or> f = 3 then
          [\<lparr>area = 20, perimeter = 17, box_w = 5, box_h = 5, m00 = 20, m10 = 205, m01 = 61\<rparr>]
          else [])
       15 3 500 2 [0, 1, 2, 3]
     = [(1 / 2, 10, 3)] @ [(3 / 2, 10, 3)]"
proof -
  let ?rnd = "\<lambda>x :: real. x"
  let ?c = "\<lparr>area = 20, perimeter = 17, box_w = 5, box_h = 5, m00 = 20, m10 = 205, m01 = 61\<rparr>"
  let ?fc = "\<lambda>(f :: nat) (pf :: nat) (thr :: int). if f = 1 \<or> f = 3 then [?c] else []"
  let ?self = "\<lparr>blur_size = 15, width = 20, height = 20, colormap = ''hot'',
        cursor_positions = [], total_frames = 4, fps = 2\<rparr>"
  let ?frames = "[0, 1, 2, 3] :: nat list"
  have s: "survives 3 500 ?c"
    by (simp add: survives_def circularity_def aspect_ratio_def np_pi_def)
  have sel: "select_centroid 3 500 [?c] = (10, 3)" "select_centroid 3 500 [] = (- 1, - 1)"
    using s by (simp_all add: select_centroid_eq survivors_def best_survivor_def centroid_def
        py_int_def)
  have d: "detection_at ?fc 15 3 500 ?frames 1 = (10, 3)"
    "detection_at ?fc 15 3 500 ?frames 2 = (- 1, - 1)"
    "detection_at ?fc 15 3 500 ?frames 3 = (10, 3)"
    using sel by (simp_all add: detection_at_def detect_cursor_from_difference_def)
  have idx: "[1..<length ?frames] = [1, 2, 3]"
    by (simp add: upt_conv_Cons)
  have ps: "pass_samples ?fc 15 3 500 2 ?frames = [(1 / 2, 10, 3), (3 / 2, 10, 3)]"
    unfolding pass_samples_def idx using d by (simp add: detected_def)
  have tk: "take 2 ?frames = [0, 1]" by (simp add: eval_nat_numeral)
  have d2: "detection_at ?fc 15 3 500 [0, 1] 1 = (10, 3)"
    using sel by (simp add: detection_at_def detect_cursor_from_difference_def)
  have ps2: "pass_samples ?fc 15 3 500 2 [0, 1] = [(1 / 2, 10, 3)]"
    unfolding pass_samples_def using d2 by (simp add: detected_def)
  have mid0: "run_loop ?rnd ?fc 15 3 500 ?self [0, 1] initial_state =
      Inr \<lparr>frame_count = length [0, 1 :: nat],
            prev_frame = (if [0, 1 :: nat] = [] then None else Some (last [0, 1])),
            positions = pass_samples ?fc 15 3 500 (fps ?self) [0, 1],
            emitted = map (percent ?rnd (total_frames ?self)) [1..<Suc (length [0, 1 :: nat])]\<rparr>"
    by (rule run_loop_initial) simp_all
  have fps_v: "fps ?self = 2" by simp
  have em: "map (percent ?rnd (total_frames ?self)) [1..<Suc (length [0, 1 :: nat])] = [25, 50]"
    by (simp add: upt_conv_Cons percent_def py_int_def)
  have mid: "run_stopped_after ?rnd ?fc 15 3 500 ?self ?frames 2 =
      Inr \<lparr>frame_count = 2, prev_frame = Some 1, positions = [(1 / 2, 10, 3)],
            emitted = [25, 50]\<rparr>"
    unfolding run_stopped_after_def run_loop_upto_take tk mid0 fps_v ps2 em by simp
  have "\<exists>st. run_stopped_after ?rnd ?fc 15 3 500 ?self ?frames 2 = Inr st
           \<and> frame_count st = min 2 (length ?frames)
           \<and> positions st = pass_samples ?fc 15 3 500 (fps ?self) (take 2 ?frames)
           \<and> (\<exists>more. pass_samples ?fc 15 3 500 (fps ?self) ?frames = positions st @ more)"
    by (rule run_no_cancellation [of ?rnd ?fc 15 3 500 ?self _ _ _ _ ?frames 2,
          THEN conjunct2, THEN mp]) simp
  then obtain st more where
    "run_stopped_after ?rnd ?fc 15 3 500 ?self ?frames 2 = Inr st"
    "pass_samples ?fc 15 3 500 (fps ?self) ?frames = positions st @ more"
    by blast
  with mid ps have "pass_samples ?fc 15 3 500 2 ?frames = [(1 / 2, 10, 3)] @ [(3 / 2, 10, 3)]"
    by simp
  with mid show ?thesis by simp
qed

text \<open>
  C6, as the specification has it, fails. The same pass stopped after three of its
  four iterations leaves the trail \<open>[(1 / 2, 10, 3)]\<close> in the processor: a partial
  trail, neither empty nor the trail \<open>[(1 / 2, 10, 3), (3 / 2, 10, 3)]\<close> of the
  complete pass.
\<close>

theorem run_stopped_counterexample:
  "run_stopped_after (\<lambda>x. x)
       (\<lambda>f pf thr. if f = (1 :: nat) \<or> f = 3 then
          [\<lparr>area = 20, perimeter = 17, box_w = 5, box_h = 5, m00 = 20, m10 = 205, m01 = 61\<rparr>]
          else [])
       15 3 500
       \<lparr>blur_size = 15, width = 20, height = 20, colormap = ''hot'',
        cursor_positions = [], total_frames = 4, fps = 2\<rparr>
       [0, 1, 2, 3] 3
     = Inr \<lparr>frame_count = 3, prev_frame = Some 2, positions = [(1 / 2, 10, 3)],
            emitted = [25, 50, 75]\<rparr>
   \<and> run (\<lambda>x. x)
       (\<lambda>f pf thr. if f = (1 :: nat) \<or> f = 3 then
          [\<lparr>area = 20, perimeter = 17, box_w = 5, box_h = 5, m00 = 20, m10 = 205, m01 = 61\<rparr>]
          else [])
       15 3 500
       \<lparr>blur_size = 15, width = 20, height = 20, colormap = ''hot'',
        cursor_positions = [], total_frames = 4, fps = 2\<rparr>
       (Some [0, 1, 2, 3])
     = Inr (\<lparr>blur_size = 15, width = 20, height = 20, colormap = ''hot'',
             cursor_positions = [(1 / 2, 10, 3), (3 / 2, 10, 3)], total_frames = 4, fps = 2\<rparr>,
            [25, 50, 75, 100], [True])"
proof -
  let ?c = "\<lparr>area = 20, perimeter = 17, box_w = 5, box_h = 5, m00 = 20, m10 = 205, m01 = 61\<rparr>"
  have s: "survives 3 500 ?c"
    by (simp add: survives_def circularity_def aspect_ratio_def np_pi_def)
  have sel: "select_centroid 3 500 [?c] = (10, 3)" "select_centroid 3 500 [] = (- 1, - 1)"
    using s by (simp_all add: select_centroid_eq survivors_def best_survivor_def centroid_def
        py_int_def)
  have tk: "take 3 [0, 1, 2, 3 :: nat] = [0, 1, 2]" by (simp add: eval_nat_numeral)
  show ?thesis
    unfolding run_stopped_after_def run_loop_upto_take run_def tk
    by (simp add: initial_state_def run_step_def py_int_def detect_cursor_from_difference_def
        sel Let_def)
qed

subsection \<open>Compositing\<close>

lemma py_int_of_int: "py_int (real_of_int k) = k"
  by (simp add: py_int_def)

lemma astype_uint8_unat: "astype_uint8 (real (unat w)) = w"
proof -
  have "astype_uint8 (real_of_int (uint w)) = w"
    unfolding astype_uint8_def py_int_of_int by (rule word_of_int_uint)
  then show ?thesis by simp
qed

lemma blend_zero: "blend f c 0 = f"
  using astype_uint8_unat [of f] by (simp add: blend_def)

lemma blend_pixel_zero: "blend_pixel p q 0 = p"
  by (cases p; cases q) (simp add: blend_pixel_def blend_zero)

lemma blend_frame_length: "length (blend_frame fr col al) = length fr"
  by (simp add: blend_frame_def)

lemma blend_frame_row:
  assumes "y < length fr"
  shows "blend_frame fr col al ! y =
     map (\<lambda>(x, p). blend_pixel p (broadcast_get col y x) (broadcast_get al y x))
       (enumerate 0 (fr ! y))"
  using assms by (simp add: blend_frame_def nth_enumerate_eq)

lemma blend_frame_nth:
  assumes "y < length fr" "x < length (fr ! y)"
  shows "blend_frame fr col al ! y ! x =
     blend_pixel (fr ! y ! x) (broadcast_get col y x) (broadcast_get al y x)"
  using assms by (simp add: blend_frame_row nth_enumerate_eq)

lemma rectangular_nth:
  assumes "rectangular a" "i < length a"
  shows "length (a ! i) = n_cols a"
  using assms by (simp add: rectangular_def list_all_length)

lemma broadcast_index:
  assumes "rectangular a" "rectangular fr" "broadcastable fr a"
    and "y < length fr" "x < length (fr ! y)"
  shows "(if length a = 1 then 0 else y) < length a"
    and "(if length (a ! (if length a = 1 then 0 else y)) = 1 then 0 else x)
          < length (a ! (if length a = 1 then 0 else y))"
proof -
  show iy: "(if length a = 1 then 0 else y) < length a"
    using assms(3,4) by (auto simp: broadcastable_def)
  have w: "x < n_cols fr" using rectangular_nth [OF assms(2,4)] assms(5) by simp
  have "length (a ! (if length a = 1 then 0 else y)) = n_cols a"
    by (rule rectangular_nth [OF assms(1) iy])
  moreover have "n_cols a = n_cols fr \<or> n_cols a = 1"
    using assms(3) by (simp add: broadcastable_def)
  ultimately show "(if length (a ! (if length a = 1 then 0 else y)) = 1 then 0 else x)
          < length (a ! (if length a = 1 then 0 else y))"
    using w by auto
qed

lemma broadcast_get_map:
  assumes "rectangular a" "rectangular fr" "broadcastable fr a"
    and "y < length fr" "x < length (fr ! y)"
  shows "broadcast_get (map (map f) a) y x = f (broadcast_get a y x)"
  using broadcast_index [OF assms]
  by (simp add: broadcast_get_def Let_def)

lemma broadcast_get_in:
  assumes "rectangular a" "rectangular fr" "broadcastable fr a"
    and "y < length fr" "x < length (fr ! y)"
  shows "\<exists>row \<in> set a. broadcast_get a y x \<in> set row"
proof -
  note i = broadcast_index [OF assms]
  let ?row = "a ! (if length a = 1 then 0 else y)"
  have "?row \<in> set a" using i(1) by (rule nth_mem)
  moreover have "broadcast_get a y x \<in> set ?row"
    unfolding broadcast_get_def Let_def using i(2) by (rule nth_mem)
  ultimately show ?thesis by blast
qed

lemma broadcast_get_same_shape:
  assumes "length a = length fr" "n_cols a = n_cols fr" "rectangular a" "rectangular fr"
    and "y < length fr" "x < length (fr ! y)"
  shows "broadcast_get a y x = a ! y ! x"
proof -
  have la: "length (a ! y) = n_cols a" using assms by (intro rectangular_nth) simp_all
  have lf: "length (fr ! y) = n_cols fr" using assms by (intro rectangular_nth) simp_all
  have iy: "(if length a = 1 then 0 else y) = y" using assms(1,5) by auto
  have ix: "(if length (a ! y) = 1 then 0 else x) = x" using la lf assms(2,6) by auto
  show ?thesis unfolding broadcast_get_def Let_def iy ix by (rule refl)
qed

lemma np_max_nonempty:
  assumes "concat a \<noteq> []"
  shows "\<exists>m. np_max a = Inr m"
  using assms by (cases "concat a") (simp_all add: np_max_def)

lemma blend_frame_unchanged:
  assumes "\<And>y x. y < length fr \<Longrightarrow> x < length (fr ! y) \<Longrightarrow> broadcast_get al y x = 0"
  shows "blend_frame fr col al = fr"
proof (rule nth_equalityI)
  show "length (blend_frame fr col al) = length fr" by (rule blend_frame_length)
next
  fix y assume "y < length (blend_frame fr col al)"
  then have y: "y < length fr" by (simp add: blend_frame_length)
  show "blend_frame fr col al ! y = fr ! y"
  proof (rule nth_equalityI)
    show "length (blend_frame fr col al ! y) = length (fr ! y)"
      using y by (simp add: blend_frame_row)
  next
    fix x assume "x < length (blend_frame fr col al ! y)"
    then have x: "x < length (fr ! y)" using y by (simp add: blend_frame_row)
    show "blend_frame fr col al ! y ! x = fr ! y ! x"
      using assms [OF y x] by (simp add: blend_frame_nth [OF y x] blend_pixel_zero)
  qed
qed

text \<open>
  C1. For a frame and a density field of the frame's shape (or one that numpy
  broadcasts to it), with at least one element, and a colormap name that matplotlib
  knows, \<^verbatim>\<open>apply_heatmap_to_frame\<close> returns a frame of the same shape, for every
  colormap and every \<^verbatim>\<open>alpha_max\<close>. Where the density is zero the output pixel is
  the input pixel; a field that is zero everywhere gives back the frame itself.
  Every channel of every output pixel is a \<^verbatim>\<open>uint8\<close>, between 0 and 255.
\<close>

theorem apply_heatmap_zero_density:
  assumes "cm (colormap self) = Some cmap"
    and "concat heatmap \<noteq> []"
    and "rectangular heatmap" and "rectangular fr" and "broadcastable fr heatmap"
  shows "\<exists>out. apply_heatmap_to_frame cm self fr heatmap alpha_max = Inr out
     \<and> length out = length fr
     \<and> (\<forall>y < length fr. length (out ! y) = length (fr ! y))
     \<and> (\<forall>y < length fr. \<forall>x < length (fr ! y).
           broadcast_get heatmap y x = 0 \<longrightarrow> out ! y ! x = fr ! y ! x)
     \<and> (length heatmap = length fr \<and> n_cols heatmap = n_cols fr \<longrightarrow>
           (\<forall>y < length fr. \<forall>x < length (fr ! y).
              heatmap ! y ! x = 0 \<longrightarrow> out ! y ! x = fr ! y ! x))
     \<and> (list_all (list_all (\<lambda>v. v = 0)) heatmap \<longrightarrow> out = fr)
     \<and> list_all (list_all (\<lambda>p. case p of (c0, c1, c2) \<Rightarrow>
           unat c0 \<le> 255 \<and> unat c1 \<le> 255 \<and> unat c2 \<le> 255)) out"
proof -
  from np_max_nonempty [OF assms(2)] obtain m where m: "np_max heatmap = Inr m" by blast
  define vmax where "vmax = (if m > 0 then m else 1)"
  define norm where "norm = (\<lambda>v :: real. (v - 0) / (vmax - 0))"
  define col where "col = map (map (\<lambda>rgb. case rgb of (r, g, b) \<Rightarrow> (b, g, r)))
      (map (map (\<lambda>v. case cmap v of (r, g, b) \<Rightarrow>
          (astype_uint8 (r * 255), astype_uint8 (g * 255), astype_uint8 (b * 255))))
        (map (map norm) heatmap))"
  define al where "al = map (map (\<lambda>v. norm v * alpha_max)) heatmap"
  define out where "out = blend_frame fr col al"
  have res: "apply_heatmap_to_frame cm self fr heatmap alpha_max = Inr out"
    unfolding apply_heatmap_to_frame_def m
    using assms(1,5)
    by (simp add: Let_def out_def col_def al_def norm_def vmax_def o_def)
  have al_get: "broadcast_get al y x = norm (broadcast_get heatmap y x) * alpha_max"
    if "y < length fr" "x < length (fr ! y)" for y x
    unfolding al_def by (rule broadcast_get_map [OF assms(3,4,5) that])
  have zero: "out ! y ! x = fr ! y ! x"
    if "y < length fr" "x < length (fr ! y)" "broadcast_get heatmap y x = 0" for y x
    unfolding out_def blend_frame_nth [OF that(1,2)] al_get [OF that(1,2)] that(3)
    by (simp add: norm_def blend_pixel_zero)
  have len: "length out = length fr" by (simp add: out_def blend_frame_length)
  have rows: "\<forall>y < length fr. length (out ! y) = length (fr ! y)"
    by (simp add: out_def blend_frame_row)
  have same: "\<forall>y < length fr. \<forall>x < length (fr ! y).
              heatmap ! y ! x = 0 \<longrightarrow> out ! y ! x = fr ! y ! x"
    if "length heatmap = length fr \<and> n_cols heatmap = n_cols fr"
    using that zero broadcast_get_same_shape [OF _ _ assms(3,4)] by simp
  have all: "out = fr" if z: "list_all (list_all (\<lambda>v. v = 0)) heatmap"
    unfolding out_def
  proof (rule blend_frame_unchanged)
    fix y x assume yx: "y < length fr" "x < length (fr ! y)"
    from broadcast_get_in [OF assms(3,4,5) yx] z have "broadcast_get heatmap y x = 0"
      by (auto simp: list_all_iff)
    then show "broadcast_get al y x = 0"
      unfolding al_get [OF yx] by (simp add: norm_def)
  qed
  have rng: "list_all (list_all (\<lambda>p. case p of (c0, c1, c2) \<Rightarrow>
           unat c0 \<le> 255 \<and> unat c1 \<le> 255 \<and> unat c2 \<le> 255)) out"
  proof -
    have "unat c \<le> 255" for c :: "8 word"
      using unsigned_less [of c, where ?'a = nat] by simp
    then show ?thesis by (auto simp: list_all_iff)
  qed
  from res len rows zero same all rng show ?thesis by blast
qed

text \<open>
  The theorem on a frame of one row and two pixels, with a colormap that maps \<open>v\<close>
  to the red of intensity \<open>v\<close> and \<^verbatim>\<open>alpha_max = 0.5\<close>. With the field \<open>[[0, 1]]\<close> the
  first pixel is unchanged and the second is blended half and half with red:
  \<open>60 * 0.5 + 255 * 0.5 = 157.5\<close>, truncated to 157. With the field \<open>[[0, 0]]\<close> the
  frame comes back unchanged.
\<close>

theorem apply_heatmap_zero_density_witness:
  "apply_heatmap_to_frame [''hot'' \<mapsto> (\<lambda>v. (v, 0, 0))]
      \<lparr>blur_size = 15, width = 2, height = 1, colormap = ''hot'',
       cursor_positions = [], total_frames = 4, fps = 2\<rparr>
      [[(10, 20, 30), (40, 50, 60)]] [[0, 1]] (1 / 2)
     = Inr [[(10, 20, 30), (20, 25, 157)]]
   \<and> apply_heatmap_to_frame [''hot'' \<mapsto> (\<lambda>v. (v, 0, 0))]
      \<lparr>blur_size = 15, width = 2, height = 1, colormap = ''hot'',
       cursor_positions = [], total_frames = 4, fps = 2\<rparr>
      [[(10, 20, 30), (40, 50, 60)]] [[0, 0]] (1 / 2)
     = Inr [[(10, 20, 30), (40, 50, 60)]]"
proof -
  let ?cm = "[''hot'' \<mapsto> (\<lambda>v :: real. (v, 0 :: real, 0 :: real))]"
  let ?self = "\<lparr>blur_size = 15, width = 2, height = 1, colormap = ''hot'',
       cursor_positions = [], total_frames = 4, fps = 2\<rparr>"
  let ?fr = "[[(10, 20, 30), (40, 50, 60)]] :: frame"
  have a: "apply_heatmap_to_frame ?cm ?self ?fr [[0, 1]] (1 / 2)
           = Inr [[(10, 20, 30), (20, 25, 157)]]"
    by (simp add: apply_heatmap_to_frame_def np_max_def broadcastable_def n_cols_def
        blend_frame_def broadcast_get_def blend_pixel_def blend_def astype_uint8_def
        py_int_def)
  have "\<exists>out. apply_heatmap_to_frame ?cm ?self ?fr [[0, 0]] (1 / 2) = Inr out
     \<and> length out = length ?fr
     \<and> (\<forall>y < length ?fr. length (out ! y) = length (?fr ! y))
     \<and> (\<forall>y < length ?fr. \<forall>x < length (?fr ! y).
           broadcast_get [[0, 0 :: real]] y x = 0 \<longrightarrow> out ! y ! x = ?fr ! y ! x)
     \<and> (length [[0, 0 :: real]] = length ?fr \<and> n_cols [[0, 0 :: real]] = n_cols ?fr \<longrightarrow>
           (\<forall>y < length ?fr. \<forall>x < length (?fr ! y).
              [[0, 0 :: real]] ! y ! x = 0 \<longrightarrow> out ! y ! x = ?fr ! y ! x))
     \<and> (list_all (list_all (\<lambda>v. v = 0)) [[0, 0 :: real]] \<longrightarrow> out = ?fr)
     \<and> list_all (list_all (\<lambda>p. case p of (c0, c1, c2) \<Rightarrow>
           unat c0 \<le> 255 \<and> unat c1 \<le> 255 \<and> unat c2 \<le> 255)) out"
    by (rule apply_heatmap_zero_density [of ?cm ?self "\<lambda>v. (v, 0, 0)"])
       (simp_all add: rectangular_def broadcastable_def n_cols_def)
  then obtain out where
    "apply_heatmap_to_frame ?cm ?self ?fr [[0, 0]] (1 / 2) = Inr out"
    "list_all (list_all (\<lambda>v. v = 0)) [[0, 0 :: real]] \<longrightarrow> out = ?fr"
    by blast
  then have b: "apply_heatmap_to_frame ?cm ?self ?fr [[0, 0]] (1 / 2) = Inr ?fr"
    by simp
  from a b show ?thesis by simp
qed

text \<open>
  For an opacity between 0 and 1 the cast of line 162 does not wrap: the blended
  value lies between the two channel values, so inside \<open>[0, 255]\<close>, and the output
  channel is its integer part.
\<close>

lemma blend_no_wrap:
  assumes "0 \<le> a" "a \<le> 1"
  shows "uint (blend f c a) = \<lfloor>real (unat f) * (1 - a) + real (unat c) * a\<rfloor>"
proof -
  define nf where "nf = unat f"
  define nc where "nc = unat c"
  have "nf < 256" "nc < 256"
    using unsigned_less [of f, where ?'a = nat] unsigned_less [of c, where ?'a = nat]
    by (simp_all add: nf_def nc_def)
  then have f: "real nf \<le> 255" and c: "real nc \<le> 255" by simp_all
  let ?v = "real nf * (1 - a) + real nc * a"
  have lo: "0 \<le> ?v" using assms by simp
  have "real nf * (1 - a) \<le> 255 * (1 - a)"
    using f assms by (intro mult_right_mono) simp_all
  moreover have "real nc * a \<le> 255 * a"
    using c assms by (intro mult_right_mono) simp_all
  ultimately have hi: "?v \<le> 255" by (simp add: algebra_simps)
  from lo have "0 \<le> \<lfloor>?v\<rfloor>" by simp
  moreover from hi have "\<lfloor>?v\<rfloor> \<le> 255" by (simp add: floor_le_iff)
  ultimately have "uint (word_of_int \<lfloor>?v\<rfloor> :: 8 word) = \<lfloor>?v\<rfloor>"
    by (simp add: uint_word_of_int)
  with lo have "uint (astype_uint8 ?v) = \<lfloor>?v\<rfloor>"
    by (simp add: astype_uint8_def py_int_def)
  then show ?thesis unfolding blend_def nf_def nc_def .
qed

end
